theory Spec2Isabelle
  imports Complex_Main
begin

section \<open>The match collector \<^verbatim>\<open>scripts/fetch_eune_matches.py\<close>\<close>

text \<open>
  A shallow embedding of the collection script. What the script does beyond computing
  values is made explicit:
  \<^item> the process environment, the disk, the clock and the HTTP session are fields of
    one record \<open>world\<close>, passed through every operation;
  \<^item> the readings of \<^verbatim>\<open>time.time()\<close> and the responses of the server are inputs: the
    world lists the readings and responses still to come, and each call takes the next;
  \<^item> a Python exception is a value \<open>Inl e\<close> of the result;
  \<^item> the result \<open>None\<close> means that the run has left the model: the list of clock
    readings or of responses ended, or a reply holds a value of a type that the
    source's annotations exclude and that the model does not follow.

  What is left out: time is a real number, without the rounding of floating point; the
  session always returns a response (no connection error, no timeout); reading and
  writing files never fails; \<^verbatim>\<open>main\<close> starts from the parsed command line, after
  \<^verbatim>\<open>parse_args\<close>, and the logger records every call, whatever the logging level; a log
  entry is the level with the format string, without its arguments.
\<close>

subsection \<open>JSON documents and the Python operations used on them\<close>

datatype json =
    JNull
  | JBool bool
  | JInt int
  | JNum real
  | JStr string
  | JArr "json list"
  | JObj "(string \<times> json) list"

datatype runtime_error =
    Request_failed int   \<comment> \<open>\<^verbatim>\<open>Request failed (<status>) for <url>\<close>\<close>
  | Giving_up int        \<comment> \<open>\<^verbatim>\<open>Giving up on <url> after <retries> attempts\<close>\<close>

datatype error =
    RuntimeError runtime_error
  | ValueError
  | TypeError
  | AttributeError

text \<open>Truth value of a parsed JSON value (\<^verbatim>\<open>if x:\<close>, \<^verbatim>\<open>not x\<close>, \<^verbatim>\<open>a or b\<close>).\<close>

fun truthy :: "json \<Rightarrow> bool" where
  "truthy JNull = False"
| "truthy (JBool b) = b"
| "truthy (JInt n) = (n \<noteq> 0)"
| "truthy (JNum r) = (r \<noteq> 0)"
| "truthy (JStr s) = (s \<noteq> [])"
| "truthy (JArr xs) = (xs \<noteq> [])"
| "truthy (JObj kvs) = (kvs \<noteq> [])"

text \<open>\<^verbatim>\<open>d.get(key, default)\<close>: only a dict has the method.\<close>

fun py_get_default :: "json \<Rightarrow> string \<Rightarrow> json \<Rightarrow> error + json" where
  "py_get_default (JObj kvs) k d = (case map_of kvs k of None \<Rightarrow> Inr d | Some v \<Rightarrow> Inr v)"
| "py_get_default _ k d = Inl AttributeError"

definition py_get :: "json \<Rightarrow> string \<Rightarrow> error + json" where
  "py_get j k = py_get_default j k JNull"

text \<open>Iteration (\<^verbatim>\<open>for x in v\<close>, \<^verbatim>\<open>list(v)\<close>): a list gives its elements, a dict its keys,
  a string its characters; nothing else is iterable.\<close>

fun py_iter :: "json \<Rightarrow> error + json list" where
  "py_iter (JArr xs) = Inr xs"
| "py_iter (JObj kvs) = Inr (map (\<lambda>kv. JStr (fst kv)) kvs)"
| "py_iter (JStr s) = Inr (map (\<lambda>c. JStr [c]) s)"
| "py_iter _ = Inl TypeError"

text \<open>A string is the list of its code points, and the model has the code points below
  256. Among them \<^verbatim>\<open>str.isspace\<close> holds of the ASCII whitespace, of the separators
  \<^verbatim>\<open>\x1c\<close> to \<^verbatim>\<open>\x1f\<close>, of \<^verbatim>\<open>\x85\<close> and of \<^verbatim>\<open>\xa0\<close>; \<^verbatim>\<open>str.strip()\<close> removes these at
  both ends.\<close>

definition is_space :: "char \<Rightarrow> bool" where
  "is_space c = ((of_char c :: nat) \<in> {9, 10, 11, 12, 13, 28, 29, 30, 31, 32, 133, 160})"

definition strip :: "string \<Rightarrow> string" where
  "strip s = rev (dropWhile is_space (rev (dropWhile is_space s)))"

text \<open>The whitespace that \<^verbatim>\<open>int\<close> skips around a number: as above, but not the separators
  \<^verbatim>\<open>\x1c\<close> to \<^verbatim>\<open>\x1f\<close>.\<close>

definition is_int_space :: "char \<Rightarrow> bool" where
  "is_int_space c = ((of_char c :: nat) \<in> {9, 10, 11, 12, 13, 32, 133, 160})"

definition is_digit :: "char \<Rightarrow> bool" where
  "is_digit c = (48 \<le> (of_char c :: nat) \<and> (of_char c :: nat) \<le> 57)"

text \<open>The digits of an integer literal after its sign: single underscores may stand
  between digits. \<open>None\<close> when the text is not of that form.\<close>

fun parse_digits :: "int \<Rightarrow> string \<Rightarrow> int option" where
  "parse_digits acc [] = Some acc"
| "parse_digits acc (c # cs) =
     (if is_digit c then parse_digits (acc * 10 + (int (of_char c) - 48)) cs
      else if c = CHR ''_'' \<and> cs \<noteq> [] \<and> is_digit (hd cs) then parse_digits acc cs
      else None)"

text \<open>\<^verbatim>\<open>int(s)\<close> for a string: whitespace around, an optional sign, then digits. A text
  with more than 4300 digits is refused as well (the limit on the conversion of strings
  to integers of Python 3.11 and later).\<close>

definition py_int_str :: "string \<Rightarrow> error + int" where
  "py_int_str s =
     (case rev (dropWhile is_int_space (rev (dropWhile is_int_space s))) of
        [] \<Rightarrow> Inl ValueError
      | c # cs \<Rightarrow>
          (let body = (if c = CHR ''+'' \<or> c = CHR ''-'' then cs else c # cs) in
           if body = [] \<or> \<not> is_digit (hd body) \<or> length (filter is_digit body) > 4300
           then Inl ValueError
           else
             (case parse_digits 0 body of
                None \<Rightarrow> Inl ValueError
              | Some n \<Rightarrow> Inr (if c = CHR ''-'' then - n else n))))"

text \<open>\<^verbatim>\<open>int(v)\<close>: a float is truncated towards zero, a string is parsed; \<^verbatim>\<open>None\<close>, a
  list and a dict raise TypeError.\<close>

fun py_int :: "json \<Rightarrow> (error + int) option" where
  "py_int (JInt n) = Some (Inr n)"
| "py_int (JBool b) = Some (Inr (if b then 1 else 0))"
| "py_int (JNum r) = Some (Inr (if 0 \<le> r then \<lfloor>r\<rfloor> else \<lceil>r\<rceil>))"
| "py_int (JStr s) = Some (py_int_str s)"
| "py_int _ = Some (Inl TypeError)"

text \<open>\<^verbatim>\<open>v != n\<close> for an integer \<open>n\<close>: Python compares numbers by value (and \<^verbatim>\<open>True\<close> is 1).\<close>

fun py_ne_int :: "json \<Rightarrow> int \<Rightarrow> bool" where
  "py_ne_int (JInt m) n = (m \<noteq> n)"
| "py_ne_int (JNum r) n = (r \<noteq> of_int n)"
| "py_ne_int (JBool b) n = ((if b then 1 else 0) \<noteq> n)"
| "py_ne_int _ n = True"

subsection \<open>The world\<close>

type_synonym path = string

datatype file_content = Json json | Not_json

datatype level = DEBUG | INFO | WARNING | ERROR

datatype retry_after =
    Header_absent
  | Header_float real     \<comment> \<open>the header text, as \<^verbatim>\<open>float\<close> reads it\<close>
  | Header_unparseable    \<comment> \<open>a header text on which \<^verbatim>\<open>float\<close> raises ValueError\<close>

record response =
  status_code :: int
  retry_after_header :: retry_after
  json_body :: "json option"   \<comment> \<open>what \<^verbatim>\<open>response.json()\<close> returns; \<open>None\<close> when it raises\<close>

type_synonym request = "string \<times> (string \<times> int) list"

record RiotRateLimiter =
  per_second :: int
  per_two_minutes :: int
  second_window :: "real list"
  two_minute_window :: "real list"

record world =
  environ :: "string \<Rightarrow> string option"
  dotenv :: "string list option"   \<comment> \<open>the lines of \<^verbatim>\<open>.env\<close>, when it is a file\<close>
  files :: "path \<Rightarrow> file_content option"
  dirs :: "path set"               \<comment> \<open>directories made by \<^verbatim>\<open>ensure_directory\<close>\<close>
  clock :: "real list"             \<comment> \<open>the readings of \<^verbatim>\<open>time.time()\<close> to come\<close>
  replies :: "response list"       \<comment> \<open>the responses of \<^verbatim>\<open>session.get\<close> to come\<close>
  requests :: "request list"       \<comment> \<open>the calls of \<^verbatim>\<open>session.get\<close> made so far\<close>
  sleeps :: "real list"            \<comment> \<open>the calls of \<^verbatim>\<open>time.sleep\<close> made so far\<close>
  logs :: "(level \<times> string) list"  \<comment> \<open>the calls of the logger made so far\<close>
  session_token :: string          \<comment> \<open>the \<^verbatim>\<open>X-Riot-Token\<close> header of the session\<close>
  rate_limiter :: RiotRateLimiter  \<comment> \<open>the limiter of the one \<^verbatim>\<open>RiotAPI\<close> object\<close>

type_synonym 'a io = "world \<Rightarrow> ((error + 'a) \<times> world) option"

definition io_return :: "'a \<Rightarrow> 'a io" where
  "io_return x w = Some (Inr x, w)"

definition io_raise :: "error \<Rightarrow> 'a io" where
  "io_raise e w = Some (Inl e, w)"

definition io_bind :: "'a io \<Rightarrow> ('a \<Rightarrow> 'b io) \<Rightarrow> 'b io" where
  "io_bind m f w =
     (case m w of
        None \<Rightarrow> None
      | Some (Inl e, w1) \<Rightarrow> Some (Inl e, w1)
      | Some (Inr x, w1) \<Rightarrow> f x w1)"

text \<open>A pure operation that may raise.\<close>

definition io_lift :: "error + 'a \<Rightarrow> 'a io" where
  "io_lift r w = Some (r, w)"

text \<open>An operation that only changes the world.\<close>

definition io_modify :: "(world \<Rightarrow> world) \<Rightarrow> unit io" where
  "io_modify g w = Some (Inr (), g w)"

text \<open>\<^verbatim>\<open>try: m  except RuntimeError as exc: h\<close>. No other exception is caught.\<close>

definition except_RuntimeError :: "'a io \<Rightarrow> (runtime_error \<Rightarrow> 'a io) \<Rightarrow> 'a io" where
  "except_RuntimeError m h w =
     (case m w of
        None \<Rightarrow> None
      | Some (Inl (RuntimeError exc), w1) \<Rightarrow> h exc w1
      | Some (r, w1) \<Rightarrow> Some (r, w1))"

definition unmodelled :: "'a io" where
  "unmodelled w = None"

definition logger :: "level \<Rightarrow> string \<Rightarrow> world \<Rightarrow> world" where
  "logger lvl msg w = w\<lparr>logs := logs w @ [(lvl, msg)]\<rparr>"

definition exists :: "path \<Rightarrow> world \<Rightarrow> bool" where
  "exists p w = (files w p \<noteq> None)"

definition write_text :: "path \<Rightarrow> file_content \<Rightarrow> world \<Rightarrow> world" where
  "write_text p c w = w\<lparr>files := (files w)(p \<mapsto> c)\<rparr>"

text \<open>\<^verbatim>\<open>directory / name\<close> for a file name under a directory.\<close>

definition path_join :: "path \<Rightarrow> string \<Rightarrow> path" where
  "path_join d n = d @ ''/'' @ n"

subsection \<open>\<^verbatim>\<open>RiotRateLimiter\<close>\<close>

definition RiotRateLimiter_init :: "int \<Rightarrow> int \<Rightarrow> RiotRateLimiter" where
  "RiotRateLimiter_init ps ptm =
     \<lparr>per_second = ps, per_two_minutes = ptm, second_window = [], two_minute_window = []\<rparr>"

definition trim_windows :: "real \<Rightarrow> RiotRateLimiter \<Rightarrow> RiotRateLimiter" where
  "trim_windows now l =
     l\<lparr>second_window := dropWhile (\<lambda>t. now - t \<ge> 1) (second_window l),
       two_minute_window := dropWhile (\<lambda>t. now - t \<ge> 120) (two_minute_window l)\<rparr>"

definition calculate_sleep :: "real \<Rightarrow> RiotRateLimiter \<Rightarrow> real" where
  "calculate_sleep now l =
     (let waits =
            (case second_window l of [] \<Rightarrow> [] | t # _ \<Rightarrow> [max 0.05 (1 - (now - t))]) @
            (case two_minute_window l of [] \<Rightarrow> [] | t # _ \<Rightarrow> [max 0.05 (120 - (now - t))])
      in case waits of [] \<Rightarrow> 0.05 | x # xs \<Rightarrow> fold max xs x)"

text \<open>The loop of \<^verbatim>\<open>wait\<close>, one iteration for each reading of the clock. It returns the
  limiter, the readings left and the sleeps made; \<open>None\<close> when the readings end before the
  call is admitted.\<close>

fun wait_loop ::
  "RiotRateLimiter \<Rightarrow> real list \<Rightarrow> real list \<Rightarrow> (RiotRateLimiter \<times> real list \<times> real list) option"
where
  "wait_loop l [] sl = None"
| "wait_loop l (now # rest) sl =
     (let l1 = trim_windows now l in
      if int (length (second_window l1)) < per_second l1
         \<and> int (length (two_minute_window l1)) < per_two_minutes l1
      then Some (l1\<lparr>second_window := second_window l1 @ [now],
                    two_minute_window := two_minute_window l1 @ [now]\<rparr>, rest, sl)
      else wait_loop l1 rest (sl @ [calculate_sleep now l1]))"

definition wait :: "unit io" where
  "wait w =
     (case wait_loop (rate_limiter w) (clock w) (sleeps w) of
        None \<Rightarrow> None
      | Some (l, rest, sl) \<Rightarrow> Some (Inr (), w\<lparr>rate_limiter := l, clock := rest, sleeps := sl\<rparr>))"

subsection \<open>\<^verbatim>\<open>RiotAPI\<close>\<close>

definition RiotAPI_init :: "string \<Rightarrow> world \<Rightarrow> world" where
  "RiotAPI_init api_key w =
     w\<lparr>session_token := api_key, rate_limiter := RiotRateLimiter_init 18 95\<rparr>"

definition session_get :: "string \<Rightarrow> (string \<times> int) list \<Rightarrow> response io" where
  "session_get url params w =
     (case replies w of
        [] \<Rightarrow> None
      | r # rs \<Rightarrow> Some (Inr r, w\<lparr>replies := rs, requests := requests w @ [(url, params)]\<rparr>))"

text \<open>\<^verbatim>\<open>time.sleep\<close> raises ValueError on a negative length.\<close>

definition time_sleep :: "real \<Rightarrow> unit io" where
  "time_sleep d w = (if d < 0 then Some (Inl ValueError, w) else Some (Inr (), w\<lparr>sleeps := sleeps w @ [d]\<rparr>))"

text \<open>\<^verbatim>\<open>float(response.headers.get("Retry-After", "1"))\<close>\<close>

definition retry_after_float :: "response \<Rightarrow> error + real" where
  "retry_after_float r =
     (case retry_after_header r of
        Header_absent \<Rightarrow> Inr 1
      | Header_float x \<Rightarrow> Inr x
      | Header_unparseable \<Rightarrow> Inl ValueError)"

text \<open>The loop of \<^verbatim>\<open>get_json\<close>: \<open>k\<close> attempts are left and \<open>attempt\<close> is the number of the
  next one.\<close>

fun get_json_loop :: "string \<Rightarrow> (string \<times> int) list \<Rightarrow> int \<Rightarrow> nat \<Rightarrow> nat \<Rightarrow> json io" where
  "get_json_loop url params retries 0 attempt =
     io_raise (RuntimeError (Giving_up retries))"
| "get_json_loop url params retries (Suc k) attempt =
     io_bind wait (\<lambda>_.
     io_bind (session_get url params) (\<lambda>response.
       if status_code response = 429 then
         io_bind (io_lift (retry_after_float response)) (\<lambda>retry_after.
         io_bind (io_modify (logger DEBUG ''Rate limited. Sleeping %.2fs'')) (\<lambda>_.
         io_bind (time_sleep (retry_after + 0.1)) (\<lambda>_.
         get_json_loop url params retries k (Suc attempt))))
       else if status_code response \<ge> 500 then
         io_bind (io_modify (logger WARNING ''Server error %s for %s (attempt %s)'')) (\<lambda>_.
         io_bind (time_sleep (min (2 ^ attempt) 10)) (\<lambda>_.
         get_json_loop url params retries k (Suc attempt)))
       else if status_code response \<ge> 400 then
         io_raise (RuntimeError (Request_failed (status_code response)))
       else
         (case json_body response of
            None \<Rightarrow> io_raise ValueError
          | Some j \<Rightarrow> io_return j)))"

definition get_json :: "string \<Rightarrow> (string \<times> int) list \<Rightarrow> int \<Rightarrow> json io" where
  "get_json url params retries = get_json_loop url params retries (nat retries) 1"

subsection \<open>\<^verbatim>\<open>load_api_key\<close>\<close>

text \<open>The loop over the lines of the \<^verbatim>\<open>.env\<close> file.\<close>

fun scan_env_lines :: "string \<Rightarrow> string list \<Rightarrow> string option" where
  "scan_env_lines env_var [] = None"
| "scan_env_lines env_var (l # ls) =
     (let line = strip l in
      if line = [] \<or> hd line = CHR ''#'' then scan_env_lines env_var ls
      else if CHR ''='' \<notin> set line then scan_env_lines env_var ls
      else
        let name = takeWhile (\<lambda>c. c \<noteq> CHR ''='') line;
            val = tl (dropWhile (\<lambda>c. c \<noteq> CHR ''='') line)
        in if strip name = env_var then Some (strip val) else scan_env_lines env_var ls)"

definition load_api_key :: "string \<Rightarrow> world \<Rightarrow> string option" where
  "load_api_key env_var w =
     (case environ w env_var of
        Some (c # cs) \<Rightarrow> Some (strip (c # cs))
      | _ \<Rightarrow>
          (case dotenv w of
             None \<Rightarrow> None
           | Some ls \<Rightarrow> scan_env_lines env_var ls))"

subsection \<open>Constants and run state\<close>

definition LEAGUE_ROUTE :: string where
  "LEAGUE_ROUTE = ''https://eun1.api.riotgames.com''"

definition MATCH_ROUTE :: string where
  "MATCH_ROUTE = ''https://europe.api.riotgames.com''"

definition QUEUE :: string where
  "QUEUE = ''RANKED_SOLO_5x5''"

definition TIER :: string where
  "TIER = ''GOLD''"

definition DIVISIONS :: "string list" where
  "DIVISIONS = [''I'', ''II'', ''III'', ''IV'']"

text \<open>The local variables of \<^verbatim>\<open>main\<close> that its loops change.\<close>

record run_state =
  ordered_ids :: "string list"
  known_ids :: "string set"
  puuid_cache :: "string \<Rightarrow> json option"
  new_matches :: "string list"
  skip_stats :: "(string \<times> nat) list"   \<comment> \<open>the \<^verbatim>\<open>Counter\<close>, keys in insertion order\<close>

text \<open>\<^verbatim>\<open>skip_stats[key] += 1\<close>\<close>

fun counter_incr :: "string \<Rightarrow> (string \<times> nat) list \<Rightarrow> (string \<times> nat) list" where
  "counter_incr k [] = [(k, 1)]"
| "counter_incr k ((k', n) # rest) =
     (if k = k' then (k', Suc n) # rest else (k', n) # counter_incr k rest)"

definition skip :: "string \<Rightarrow> run_state \<Rightarrow> run_state" where
  "skip reason st = st\<lparr>skip_stats := counter_incr reason (skip_stats st)\<rparr>"

text \<open>An identifier read from a reply and put into a URL or a file name. The source's
  annotations make it a string; the formatting of other values is not modelled.\<close>

fun as_str :: "json \<Rightarrow> string io" where
  "as_str (JStr s) = io_return s"
| "as_str _ = unmodelled"

fun as_strs :: "json list \<Rightarrow> string list io" where
  "as_strs [] = io_return []"
| "as_strs (x # xs) = io_bind (as_str x) (\<lambda>s. io_bind (as_strs xs) (\<lambda>ss. io_return (s # ss)))"

text \<open>\<^verbatim>\<open>range(start, stop, step)\<close> as a list, for a positive step (the script has no
  other).\<close>

function py_range :: "int \<Rightarrow> int \<Rightarrow> int \<Rightarrow> int list" where
  "py_range start stop step =
     (if 0 < step \<and> start < stop then start # py_range (start + step) stop step else [])"
  by pat_completeness auto
termination
  by (relation "measure (\<lambda>(start, stop, step). nat (stop - start))") auto

declare py_range.simps [simp del]

subsection \<open>\<^verbatim>\<open>iter_gold_entries\<close>\<close>

text \<open>The generator is modelled with its consumer: \<open>body\<close> is the body of the \<^verbatim>\<open>for\<close>
  loop that draws the entries, run at each \<^verbatim>\<open>yield\<close>. It returns \<open>True\<close> when the
  consumer leaves its loop (\<^verbatim>\<open>break\<close>), after which the generator is not resumed.\<close>

fun iter_entries :: "(json \<Rightarrow> 's \<Rightarrow> (bool \<times> 's) io) \<Rightarrow> json list \<Rightarrow> 's \<Rightarrow> (bool \<times> 's) io" where
  "iter_entries body [] st = io_return (False, st)"
| "iter_entries body (entry # entries) st =
     io_bind (body entry st) (\<lambda>r.
       if fst r then io_return (True, snd r) else iter_entries body entries (snd r))"

fun iter_pages ::
  "(json \<Rightarrow> 's \<Rightarrow> (bool \<times> 's) io) \<Rightarrow> string \<Rightarrow> int list \<Rightarrow> 's \<Rightarrow> (bool \<times> 's) io"
where
  "iter_pages body division [] st = io_return (False, st)"
| "iter_pages body division (page # pages) st =
     io_bind (get_json (LEAGUE_ROUTE @ ''/lol/league/v4/entries/'' @ QUEUE @ ''/'' @ TIER @ ''/'' @ division)
                [(''page'', page)] 5) (\<lambda>entries.
       if \<not> truthy entries then
         io_bind (io_modify (logger DEBUG ''No more entries for %s page %s'')) (\<lambda>_.
         io_return (False, st))
       else
         io_bind (io_lift (py_iter entries)) (\<lambda>es.
         io_bind (iter_entries body es st) (\<lambda>r.
           if fst r then io_return (True, snd r) else iter_pages body division pages (snd r))))"

fun iter_divisions ::
  "(json \<Rightarrow> 's \<Rightarrow> (bool \<times> 's) io) \<Rightarrow> int \<Rightarrow> string list \<Rightarrow> 's \<Rightarrow> (bool \<times> 's) io"
where
  "iter_divisions body max_pages [] st = io_return (False, st)"
| "iter_divisions body max_pages (division # divisions) st =
     io_bind (iter_pages body division (py_range 1 (max_pages + 1) 1) st) (\<lambda>r.
       if fst r then io_return (True, snd r)
       else iter_divisions body max_pages divisions (snd r))"

definition iter_gold_entries :: "int \<Rightarrow> (json \<Rightarrow> 's \<Rightarrow> (bool \<times> 's) io) \<Rightarrow> 's \<Rightarrow> 's io" where
  "iter_gold_entries max_pages body st =
     io_bind (iter_divisions body max_pages DIVISIONS st) (\<lambda>r. io_return (snd r))"

subsection \<open>\<^verbatim>\<open>fetch_puuid\<close>\<close>

text \<open>It returns the puuid and the cache.\<close>

definition fetch_puuid ::
  "string \<Rightarrow> (string \<Rightarrow> json option) \<Rightarrow> (json \<times> (string \<Rightarrow> json option)) io"
where
  "fetch_puuid summoner_id cache =
     (case cache summoner_id of
        Some puuid \<Rightarrow> io_return (puuid, cache)
      | None \<Rightarrow>
          io_bind (get_json (LEAGUE_ROUTE @ ''/lol/summoner/v4/summoners/'' @ summoner_id) [] 5) (\<lambda>data.
          io_bind (io_lift (py_get data ''puuid'')) (\<lambda>puuid.
          io_return (puuid, if truthy puuid then cache(summoner_id \<mapsto> puuid) else cache))))"

subsection \<open>\<^verbatim>\<open>download_match_bundle\<close>\<close>

definition ensure_directory :: "path \<Rightarrow> world \<Rightarrow> world" where
  "ensure_directory p w = w\<lparr>dirs := insert p (dirs w)\<rparr>"

definition match_path :: "path \<Rightarrow> string \<Rightarrow> path" where
  "match_path raw_dir match_id = path_join raw_dir (match_id @ ''.json'')"

definition timeline_path :: "path \<Rightarrow> string \<Rightarrow> path" where
  "timeline_path raw_dir match_id = path_join raw_dir (match_id @ ''_timeline.json'')"

definition match_url :: "string \<Rightarrow> string" where
  "match_url match_id = MATCH_ROUTE @ ''/lol/match/v5/matches/'' @ match_id"

definition timeline_url :: "string \<Rightarrow> string" where
  "timeline_url match_id = MATCH_ROUTE @ ''/lol/match/v5/matches/'' @ match_id @ ''/timeline''"

definition io_get :: "(world \<Rightarrow> 'a) \<Rightarrow> 'a io" where
  "io_get f w = Some (Inr (f w), w)"

definition io_lift_option :: "(error + 'a) option \<Rightarrow> 'a io" where
  "io_lift_option r w = (case r of None \<Rightarrow> None | Some x \<Rightarrow> Some (x, w))"

definition download_match_bundle ::
  "string \<Rightarrow> path \<Rightarrow> int \<Rightarrow> int option \<Rightarrow> (bool \<times> string) io"
where
  "download_match_bundle match_id raw_dir min_duration allowed_queue_id =
     io_bind (io_get (\<lambda>w. exists (match_path raw_dir match_id) w
                          \<and> exists (timeline_path raw_dir match_id) w)) (\<lambda>both.
     if both then io_return (True, ''cached'')
     else
       io_bind (get_json (match_url match_id) [] 5) (\<lambda>match_json.
       io_bind (io_lift (py_get_default match_json ''info'' (JObj []))) (\<lambda>info.
       io_bind (io_lift (py_get info ''queueId'')) (\<lambda>queue_id.
         if allowed_queue_id \<noteq> None \<and> py_ne_int queue_id (the allowed_queue_id) then
           io_bind (io_modify (logger DEBUG ''Skipping %s (queue %s)'')) (\<lambda>_.
           io_return (False, ''queue''))
         else
           io_bind (io_lift (py_get_default info ''gameDuration'' (JInt 0))) (\<lambda>d.
           io_bind (io_lift_option (py_int d)) (\<lambda>game_duration.
             if game_duration < min_duration then
               io_bind (io_modify (logger DEBUG ''Skipping %s (duration %ss)'')) (\<lambda>_.
               io_return (False, ''duration''))
             else
               io_bind (io_modify (ensure_directory raw_dir)) (\<lambda>_.
               io_bind (io_modify (write_text (match_path raw_dir match_id) (Json match_json))) (\<lambda>_.
               io_bind (io_get (exists (timeline_path raw_dir match_id))) (\<lambda>have_timeline.
                 if have_timeline then io_return (True, ''stored'')
                 else
                   io_bind (except_RuntimeError
                              (io_bind (get_json (timeline_url match_id) [] 5) (\<lambda>timeline_json.
                               io_return (Some timeline_json)))
                              (\<lambda>exc.
                               io_bind (io_modify (logger WARNING ''Timeline unavailable for %s: %s'')) (\<lambda>_.
                               io_return None))) (\<lambda>fetched.
                   case fetched of
                     None \<Rightarrow> io_return (False, ''timeline'')
                   | Some timeline_json \<Rightarrow>
                       io_bind (io_modify (write_text (timeline_path raw_dir match_id) (Json timeline_json))) (\<lambda>_.
                       io_return (True, ''stored''))))))))))))"

subsection \<open>The match list\<close>

definition load_existing_matchlist :: "path \<Rightarrow> (string list \<times> string set) io" where
  "load_existing_matchlist p =
     io_bind (io_get (\<lambda>w. files w p)) (\<lambda>content.
     case content of
       None \<Rightarrow> io_return ([], {})
     | Some Not_json \<Rightarrow> io_raise ValueError
     | Some (Json data) \<Rightarrow>
         io_bind (io_lift (py_iter data)) (\<lambda>xs.
         io_bind (as_strs xs) (\<lambda>ordered_ids.
         io_return (ordered_ids, set ordered_ids))))"

definition write_matchlist :: "path \<Rightarrow> string list \<Rightarrow> world \<Rightarrow> world" where
  "write_matchlist p match_ids = write_text p (Json (JArr (map JStr match_ids)))"

subsection \<open>\<^verbatim>\<open>main\<close>\<close>

text \<open>The parsed command line.\<close>

record args =
  target_match_count :: int
  matches_per_player :: int
  history_window :: int
  max_pages_per_division :: int
  raw_dir :: path
  matchlist :: path
  min_duration :: int
  queue_id :: int

text \<open>The defaults of \<^verbatim>\<open>parse_args\<close>.\<close>

definition default_args :: args where
  "default_args =
     \<lparr>target_match_count = 1000, matches_per_player = 50, history_window = 200,
      max_pages_per_division = 10, raw_dir = ''data/raw'', matchlist = ''matchlist.json'',
      min_duration = 15 * 60, queue_id = 420\<rparr>"


text \<open>The loop \<^verbatim>\<open>for match_id in match_ids\<close> (lines 269 to 287).\<close>

fun scan_match_ids :: "args \<Rightarrow> int option \<Rightarrow> json list \<Rightarrow> run_state \<Rightarrow> run_state io" where
  "scan_match_ids a queue_filter [] st = io_return st"
| "scan_match_ids a queue_filter (m # ms) st =
     io_bind (as_str m) (\<lambda>match_id.
       if match_id \<in> known_ids st then
         scan_match_ids a queue_filter ms (skip ''duplicate_id'' st)
       else
         io_bind (except_RuntimeError
                    (io_bind (download_match_bundle match_id (raw_dir a) (min_duration a) queue_filter)
                       (\<lambda>r. io_return (Some r)))
                    (\<lambda>exc.
                     io_bind (io_modify (logger WARNING ''Failed to store %s: %s'')) (\<lambda>_.
                     io_return None))) (\<lambda>res.
         case res of
           None \<Rightarrow> scan_match_ids a queue_filter ms (skip ''download_error'' st)
         | Some (stored, reason) \<Rightarrow>
             if \<not> stored then scan_match_ids a queue_filter ms (skip (''skip_'' @ reason) st)
             else
               (let st1 = st\<lparr>known_ids := insert match_id (known_ids st),
                              ordered_ids := ordered_ids st @ [match_id],
                              new_matches := new_matches st @ [match_id]\<rparr>
                in io_bind (io_modify (logger INFO ''Stored %s (%d/%d)'')) (\<lambda>_.
                   if int (card (known_ids st1)) \<ge> target_match_count a then io_return st1
                   else scan_match_ids a queue_filter ms st1))))"

definition match_ids_url :: "string \<Rightarrow> string" where
  "match_ids_url puuid = MATCH_ROUTE @ ''/lol/match/v5/matches/by-puuid/'' @ puuid @ ''/ids''"

text \<open>The loop \<^verbatim>\<open>for start in range(0, history_window, batch_size)\<close> (lines 255 to
  289), over the offsets still to come.\<close>

fun scan_player ::
  "args \<Rightarrow> int \<Rightarrow> int option \<Rightarrow> string \<Rightarrow> int list \<Rightarrow> run_state \<Rightarrow> run_state io"
where
  "scan_player a batch_size queue_filter puuid [] st = io_return st"
| "scan_player a batch_size queue_filter puuid (start # starts) st =
     io_bind (except_RuntimeError
                (io_bind (get_json (match_ids_url puuid)
                            [(''start'', start), (''count'', batch_size)] 5) (\<lambda>match_ids.
                 io_return (Some match_ids)))
                (\<lambda>exc.
                 io_bind (io_modify (logger WARNING ''Unable to fetch match ids for %s (start=%d): %s'')) (\<lambda>_.
                 io_return None))) (\<lambda>res.
     case res of
       None \<Rightarrow> io_return (skip ''api_error'' st)
     | Some match_ids \<Rightarrow>
         if \<not> truthy match_ids then io_return st
         else
           io_bind (io_lift (py_iter match_ids)) (\<lambda>ms.
           io_bind (scan_match_ids a queue_filter ms st) (\<lambda>st1.
             if int (card (known_ids st1)) \<ge> target_match_count a then io_return st1
             else scan_player a batch_size queue_filter puuid starts st1)))"

text \<open>The body of the loop \<^verbatim>\<open>for entry in iter_gold_entries(...)\<close> (lines 242 to 291).
  The first part finds the puuid of the entry; \<open>None\<close> stands for its \<^verbatim>\<open>continue\<close>.\<close>

definition entry_puuid :: "json \<Rightarrow> run_state \<Rightarrow> ((json \<times> run_state) option) io" where
  "entry_puuid entry st =
     io_bind (io_lift (py_get entry ''puuid'')) (\<lambda>puuid.
     if truthy puuid then
       io_bind (io_lift (py_get entry ''summonerName'')) (\<lambda>_.
       io_bind (io_modify (logger DEBUG ''Using ladder puuid for %s'')) (\<lambda>_.
       io_return (Some (puuid, st))))
     else
       io_bind (io_lift (py_get entry ''summonerId'')) (\<lambda>sid.
       io_bind (if truthy sid then io_return sid
                else io_lift (py_get entry ''encryptedSummonerId'')) (\<lambda>summoner_id.
         if \<not> truthy summoner_id then
           io_bind (io_modify (logger DEBUG ''Entry missing summonerId/puuid: %s'')) (\<lambda>_.
           io_return None)
         else
           io_bind (io_lift (py_get entry ''summonerName'')) (\<lambda>_.
           io_bind (io_modify (logger DEBUG ''Fetching puuid for %s (%s)'')) (\<lambda>_.
           io_bind (as_str summoner_id) (\<lambda>sid_str.
           io_bind (fetch_puuid sid_str (puuid_cache st)) (\<lambda>r.
           io_return (Some (fst r, st\<lparr>puuid_cache := snd r\<rparr>)))))))))"

definition process_entry ::
  "args \<Rightarrow> int \<Rightarrow> int \<Rightarrow> int option \<Rightarrow> json \<Rightarrow> run_state \<Rightarrow> (bool \<times> run_state) io"
where
  "process_entry a batch_size window queue_filter entry st =
     io_bind (entry_puuid entry st) (\<lambda>found.
     case found of
       None \<Rightarrow> io_return (False, st)
     | Some (puuid, st1) \<Rightarrow>
         if \<not> truthy puuid then
           io_bind (io_modify (logger DEBUG ''Missing puuid for ladder entry: %s'')) (\<lambda>_.
           io_return (False, st1))
         else
           io_bind (as_str puuid) (\<lambda>p.
           io_bind (scan_player a batch_size queue_filter p
                      (py_range 0 window batch_size) st1) (\<lambda>st2.
           io_return (int (card (known_ids st2)) \<ge> target_match_count a, st2))))"

text \<open>Lines 223 to 291: the API object, the match list on disk and the walk over the
  ladder.\<close>

definition collect :: "args \<Rightarrow> string \<Rightarrow> run_state io" where
  "collect a api_key =
     io_bind (io_modify (RiotAPI_init api_key)) (\<lambda>_.
     io_bind (load_existing_matchlist (matchlist a)) (\<lambda>loaded.
     io_bind (io_modify (logger INFO ''Starting with %d existing matches'')) (\<lambda>_.
     let batch_size = max 1 (min (matches_per_player a) 100) in
     io_bind (if batch_size < matches_per_player a
              then io_modify (logger WARNING ''matches-per-player capped at %d due to Riot API limits'')
              else io_return ()) (\<lambda>_.
     let history_window = max batch_size (history_window a);
         queue_filter = (if queue_id a < 0 then None else Some (queue_id a))
     in iter_gold_entries (max_pages_per_division a)
          (process_entry a batch_size history_window queue_filter)
          \<lparr>ordered_ids = fst loaded, known_ids = snd loaded, puuid_cache = (\<lambda>_. None),
           new_matches = [], skip_stats = []\<rparr>))))"

text \<open>Lines 293 to 309: the match list is written and the run reported.\<close>

definition report :: "args \<Rightarrow> run_state \<Rightarrow> int io" where
  "report a st =
     io_bind (if new_matches st \<noteq> [] then
                io_bind (io_modify (write_matchlist (matchlist a) (ordered_ids st))) (\<lambda>_.
                io_modify (logger INFO ''Updated matchlist with %d new matches (total %d).''))
              else io_modify (logger INFO ''No new matches downloaded.'')) (\<lambda>_.
     io_bind (if skip_stats st \<noteq> [] then io_modify (logger INFO ''Skip summary: %s'')
              else io_return ()) (\<lambda>_.
     io_bind (if int (card (known_ids st)) < target_match_count a then
                io_modify (logger WARNING
                  ''Only gathered %d matches (target %d). Increase max pages or matches per player and rerun.'')
              else io_return ()) (\<lambda>_.
     io_return 0)))"

text \<open>\<^verbatim>\<open>main\<close>, from the parsed arguments on. The result is the exit status.\<close>

definition main :: "args \<Rightarrow> int io" where
  "main a =
     io_bind (io_get (load_api_key ''RIOT_API_KEY'')) (\<lambda>api_key.
     case api_key of
       None \<Rightarrow>
         io_bind (io_modify (logger ERROR ''RIOT_API_KEY not found. Set it in the environment or .env file.'')) (\<lambda>_.
         io_return 1)
     | Some [] \<Rightarrow>
         io_bind (io_modify (logger ERROR ''RIOT_API_KEY not found. Set it in the environment or .env file.'')) (\<lambda>_.
         io_return 1)
     | Some key \<Rightarrow> io_bind (collect a key) (report a))"

section \<open>Notions used in the properties\<close>

subsection \<open>Worlds for the scenarios\<close>

text \<open>A world with nothing in it: no credential, an empty disk, no clock reading and no
  response to come.\<close>

definition bare_world :: world where
  "bare_world =
     \<lparr>environ = (\<lambda>_. None), dotenv = None, files = (\<lambda>_. None), dirs = {},
      clock = [], replies = [], requests = [], sleeps = [], logs = [],
      session_token = [], rate_limiter = RiotRateLimiter_init 18 95\<rparr>"

text \<open>Responses: a success with a JSON body, and a bare status.\<close>

definition ok_response :: "json \<Rightarrow> response" where
  "ok_response j = \<lparr>status_code = 200, retry_after_header = Header_absent, json_body = Some j\<rparr>"

definition status_response :: "int \<Rightarrow> response" where
  "status_response c = \<lparr>status_code = c, retry_after_header = Header_absent, json_body = None\<rparr>"

text \<open>A match detail document with a queue and a duration.\<close>

definition match_doc :: "int \<Rightarrow> int \<Rightarrow> json" where
  "match_doc q d = JObj [(''info'', JObj [(''queueId'', JInt q), (''gameDuration'', JInt d)])]"

text \<open>Both files of the match \<^verbatim>\<open>EUN1_1\<close> are on disk.\<close>

definition complete_bundle_world :: world where
  "complete_bundle_world =
     bare_world\<lparr>files := [''data/raw/EUN1_1.json'' \<mapsto> Json (match_doc 420 1800),
                            ''data/raw/EUN1_1_timeline.json'' \<mapsto> Json (JObj [])]\<rparr>"


text \<open>The server returns a match of another queue, a match of ten minutes, and a
  document without \<^verbatim>\<open>info\<close>.\<close>

definition wrong_queue_world :: world where
  "wrong_queue_world = bare_world\<lparr>clock := [0], replies := [ok_response (match_doc 450 1800)]\<rparr>"

definition short_match_world :: world where
  "short_match_world = bare_world\<lparr>clock := [0], replies := [ok_response (match_doc 420 600)]\<rparr>"

definition no_info_world :: world where
  "no_info_world = bare_world\<lparr>clock := [0], replies := [ok_response (JObj [])]\<rparr>"

text \<open>The server fails three times, then answers.\<close>

definition flaky_world :: world where
  "flaky_world =
     bare_world\<lparr>clock := [0, 2, 6, 14],
                 replies := [status_response 503, status_response 503, status_response 503,
                             ok_response (JObj [(''puuid'', JStr ''p1'')])]\<rparr>"

text \<open>The credential is in the environment.\<close>

definition credential_world :: world where
  "credential_world = bare_world\<lparr>environ := [''RIOT_API_KEY'' \<mapsto> ''RGAPI-key'']\<rparr>"

text \<open>The ladder has one player with one match, and the request for the match detail is
  answered with 429 and a \<^verbatim>\<open>Retry-After\<close> header that is not a number.\<close>

definition rate_limited_world :: world where
  "rate_limited_world =
     credential_world\<lparr>clock := [0, 0, 0],
        replies := [ok_response (JArr [JObj [(''puuid'', JStr ''p1'')]]),
                    ok_response (JArr [JStr ''EUN1_1'']),
                    \<lparr>status_code = 429, retry_after_header = Header_unparseable, json_body = None\<rparr>]\<rparr>"

text \<open>The match list on disk is \<^verbatim>\<open>["a", "b"]\<close>; the ladder has one player, whose history
  is \<^verbatim>\<open>["b", "c"]\<close>; the match \<^verbatim>\<open>c\<close> is a ranked game of thirty minutes. After it the
  server has nothing more: an empty batch of ids and empty ladder pages.\<close>

definition merge_world :: world where
  "merge_world =
     credential_world\<lparr>
       files := [''matchlist.json'' \<mapsto> Json (JArr [JStr ''a'', JStr ''b''])],
       clock := [0, 0, 0, 0, 0, 0, 0, 0, 0],
       replies := [ok_response (JArr [JObj [(''puuid'', JStr ''p1'')]]),
                   ok_response (JArr [JStr ''b'', JStr ''c'']),
                   ok_response (match_doc 420 1800),
                   ok_response (JObj []),
                   ok_response (JArr []),
                   ok_response (JArr []),
                   ok_response (JArr []),
                   ok_response (JArr []),
                   ok_response (JArr [])]\<rparr>"

text \<open>The state of a run that starts from the match list \<^verbatim>\<open>["a", "b"]\<close>.\<close>

definition two_known :: run_state where
  "two_known =
     \<lparr>ordered_ids = [''a'', ''b''], known_ids = {''a'', ''b''}, puuid_cache = (\<lambda>_. None),
      new_matches = [], skip_stats = []\<rparr>"

text \<open>The server answers the two requests of one bundle; the server answers with an empty
  batch.\<close>

definition bundle_world :: world where
  "bundle_world =
     bare_world\<lparr>clock := [0, 0],
                 replies := [ok_response (match_doc 420 1800), ok_response (JObj [])]\<rparr>"

definition empty_batch_world :: world where
  "empty_batch_world = bare_world\<lparr>clock := [0], replies := [ok_response (JArr [])]\<rparr>"



text \<open>Both files of \<^verbatim>\<open>EUN1_5\<close> are on disk, and the match is of queue 450 and lasted ten
  minutes, on disk as at the server.\<close>

definition stale_bundle_world :: world where
  "stale_bundle_world =
     bare_world\<lparr>files := [''data/raw/EUN1_5.json'' \<mapsto> Json (match_doc 450 600),
                            ''data/raw/EUN1_5_timeline.json'' \<mapsto> Json (JObj [])],
                 clock := [0],
                 replies := [ok_response (match_doc 450 600)]\<rparr>"

text \<open>A limiter of capacity 2 in the short window, and a clock that is set back by one
  time unit before its fourth reading.\<close>

definition rollback_world :: world where
  "rollback_world =
     bare_world\<lparr>clock := [10, 10, 11, 10], rate_limiter := RiotRateLimiter_init 2 95\<rparr>"

text \<open>The first response of the server is a 429 whose \<^verbatim>\<open>Retry-After\<close> header is not a
  number.\<close>

definition unparseable_first_world :: world where
  "unparseable_first_world =
     credential_world\<lparr>clock := [0],
        replies := [\<lparr>status_code = 429, retry_after_header = Header_unparseable, json_body = None\<rparr>]\<rparr>"

text \<open>The URL of a page of the ladder, as \<^verbatim>\<open>iter_gold_entries\<close> builds it.\<close>

definition ladder_url :: "string \<Rightarrow> string" where
  "ladder_url division =
     LEAGUE_ROUTE @ ''/lol/league/v4/entries/'' @ QUEUE @ ''/'' @ TIER @ ''/'' @ division"

subsection \<open>The rate limiter over a sequence of calls\<close>

text \<open>\<open>n\<close> calls of \<^verbatim>\<open>wait\<close> in a row, with the timestamps that they admit, in order: the
  timestamp admitted by a call is the one it appends to the windows.\<close>

fun wait_calls :: "nat \<Rightarrow> world \<Rightarrow> (real list \<times> world) option" where
  "wait_calls 0 w = Some ([], w)"
| "wait_calls (Suc n) w =
     (case wait w of
        None \<Rightarrow> None
      | Some (r, w1) \<Rightarrow>
          (case wait_calls n w1 of
             None \<Rightarrow> None
           | Some (ts, w2) \<Rightarrow> Some (last (second_window (rate_limiter w1)) # ts, w2)))"

text \<open>The timestamps of \<open>ts\<close> inside the sliding window of length \<open>d\<close> that ends at
  the instant \<open>s + d\<close>. The window is half-open: \<^verbatim>\<open>_trim_windows\<close> evicts a timestamp
  once it is \<open>d\<close> old or older.\<close>

definition in_window :: "real \<Rightarrow> real \<Rightarrow> real list \<Rightarrow> real list" where
  "in_window d s ts = filter (\<lambda>t. s < t \<and> t \<le> s + d) ts"

text \<open>The invariant of one window between two calls: the deque \<open>win\<close> is the end of the
  history \<open>ts\<close> of admitted timestamps, every timestamp evicted so far is at least \<open>d\<close>
  older than every reading of the clock still to come, and no sliding window of the
  history holds more than \<open>cap\<close> timestamps.\<close>

definition window_inv :: "real \<Rightarrow> int \<Rightarrow> real list \<Rightarrow> real list \<Rightarrow> real list \<Rightarrow> bool" where
  "window_inv d cap win ts clk \<longleftrightarrow>
     (\<exists>pre. ts = pre @ win \<and> (\<forall>t\<in>set pre. \<forall>x\<in>set clk. t + d \<le> x)) \<and>
     (\<forall>s. length (in_window d s ts) \<le> nat cap)"

definition limiter_inv :: "RiotRateLimiter \<Rightarrow> real list \<Rightarrow> real list \<Rightarrow> bool" where
  "limiter_inv l ts clk \<longleftrightarrow>
     window_inv 1 (per_second l) (second_window l) ts clk \<and>
     window_inv 120 (per_two_minutes l) (two_minute_window l) ts clk"

text \<open>Capacities 1 and 2: the second call is held back until the first timestamp has left
  the short window.\<close>

definition limiter_scenario :: world where
  "limiter_scenario = bare_world\<lparr>clock := [0, 1/2, 1], rate_limiter := RiotRateLimiter_init 1 2\<rparr>"


text \<open>Both windows have room for \<open>n\<close> more timestamps.\<close>

definition slack :: "nat \<Rightarrow> world \<Rightarrow> bool" where
  "slack n w \<longleftrightarrow>
     int (length (second_window (rate_limiter w))) + int n \<le> per_second (rate_limiter w) \<and>
     int (length (two_minute_window (rate_limiter w))) + int n \<le> per_two_minutes (rate_limiter w)"

subsection \<open>Responses that abort the run\<close>

text \<open>A 429 whose \<^verbatim>\<open>Retry-After\<close> header \<^verbatim>\<open>float\<close> cannot parse.\<close>

definition unparseable_429 :: "response \<Rightarrow> bool" where
  "unparseable_429 r \<longleftrightarrow> status_code r = 429 \<and> retry_after_header r = Header_unparseable"

text \<open>Every run of \<open>m\<close> consumes a first part \<open>c\<close> of the responses to come, and when \<open>c\<close>
  holds such a response the run ends with ValueError.\<close>

definition aborts :: "'a io \<Rightarrow> bool" where
  "aborts m \<longleftrightarrow>
     (\<forall>w r w'. m w = Some (r, w') \<longrightarrow>
        (\<exists>c. replies w = c @ replies w' \<and>
             ((\<exists>x\<in>set c. unparseable_429 x) \<longrightarrow> r = Inl ValueError)))"

subsection \<open>The match list during a run\<close>

text \<open>The set of known ids is the set of the ordered list, which has no duplicates.\<close>

definition state_ok :: "run_state \<Rightarrow> bool" where
  "state_ok st \<longleftrightarrow> known_ids st = set (ordered_ids st) \<and> distinct (ordered_ids st)"

text \<open>A later state of the run: the ordered list has grown at its end only, and the
  invariant is kept.\<close>

definition merged :: "run_state \<Rightarrow> run_state \<Rightarrow> bool" where
  "merged st st' \<longleftrightarrow>
     (\<exists>new. ordered_ids st' = ordered_ids st @ new) \<and> (state_ok st \<longrightarrow> state_ok st')"

text \<open>Every normal result of \<open>m\<close> satisfies \<open>Q\<close>.\<close>

definition returns :: "'a io \<Rightarrow> ('a \<Rightarrow> bool) \<Rightarrow> bool" where
  "returns m Q \<longleftrightarrow> (\<forall>w x w'. m w = Some (Inr x, w') \<longrightarrow> Q x)"

section \<open>Properties\<close>

subsection \<open>What a request changes\<close>

lemmas io_defs = io_bind_def io_return_def io_raise_def io_lift_def io_modify_def io_get_def
  io_lift_option_def except_RuntimeError_def unmodelled_def

lemma wait_frame:
  assumes "wait w = Some (r, w')"
  shows "r = Inr () \<and> files w' = files w \<and> dirs w' = dirs w \<and> replies w' = replies w \<and>
         requests w' = requests w \<and> logs w' = logs w"
  using assms by (auto simp: wait_def split: option.splits)

lemma session_get_frame:
  assumes "session_get url params w = Some (r, w')"
  shows "files w' = files w \<and> dirs w' = dirs w \<and> requests w' = requests w @ [(url, params)] \<and>
         (\<exists>x. r = Inr x \<and> replies w = x # replies w')"
  using assms by (auto simp: session_get_def split: list.splits)

lemma get_json_loop_Suc:
  assumes "wait w = Some (u, w1)" and "session_get url params w1 = Some (Inr r, w2)"
  shows "get_json_loop url params retries (Suc k) attempt w =
     (if status_code r = 429 then
        (case retry_after_float r of
           Inl e \<Rightarrow> Some (Inl e, w2)
         | Inr ra \<Rightarrow>
             if ra + 0.1 < 0
             then Some (Inl ValueError, logger DEBUG ''Rate limited. Sleeping %.2fs'' w2)
             else get_json_loop url params retries k (Suc attempt)
                    ((logger DEBUG ''Rate limited. Sleeping %.2fs'' w2)
                       \<lparr>sleeps := sleeps w2 @ [ra + 0.1]\<rparr>))
      else if status_code r \<ge> 500 then
        get_json_loop url params retries k (Suc attempt)
          ((logger WARNING ''Server error %s for %s (attempt %s)'' w2)
             \<lparr>sleeps := sleeps w2 @ [min (2 ^ attempt) 10]\<rparr>)
      else if status_code r \<ge> 400 then
        Some (Inl (RuntimeError (Request_failed (status_code r))), w2)
      else (case json_body r of None \<Rightarrow> Some (Inl ValueError, w2) | Some j \<Rightarrow> Some (Inr j, w2)))"
proof -
  have u: "u = Inr ()" using assms(1) by (rule wait_frame [THEN conjunct1])
  show ?thesis
    using assms unfolding u
    by (simp add: io_defs time_sleep_def logger_def min_less_iff_disj
        split: sum.splits option.splits)
qed

lemma get_json_loop_frame:
  assumes "get_json_loop url params retries k attempt w = Some (x, w')"
  shows "files w' = files w \<and> dirs w' = dirs w \<and>
         (\<exists>n. requests w' = requests w @ replicate n (url, params) \<and> (0 < k \<longrightarrow> 0 < n))"
  using assms
proof (induction k arbitrary: attempt w)
  case 0
  then show ?case by (simp add: io_raise_def)
next
  case (Suc k)
  from Suc.prems obtain u w1 where w1: "wait w = Some (u, w1)"
    by (auto simp: io_bind_def split: option.splits)
  then have u: "u = Inr ()" and f1: "files w1 = files w" "dirs w1 = dirs w" "requests w1 = requests w"
    using wait_frame by blast+
  from Suc.prems w1 u obtain r w2 where w2: "session_get url params w1 = Some (Inr r, w2)"
    by (auto simp: io_bind_def session_get_def split: option.splits list.splits)
  then have f2: "files w2 = files w1" "dirs w2 = dirs w1" "requests w2 = requests w1 @ [(url, params)]"
    using session_get_frame by blast+
  have base: "files w2 = files w" "dirs w2 = dirs w" "requests w2 = requests w @ [(url, params)]"
    using f1 f2 by simp_all
  note eq = get_json_loop_Suc [OF w1 w2, of retries k attempt]
  have "(\<exists>w3. files w3 = files w2 \<and> dirs w3 = dirs w2 \<and> requests w3 = requests w2 \<and>
            get_json_loop url params retries k (Suc attempt) w3 = Some (x, w')) \<or>
        (files w' = files w2 \<and> dirs w' = dirs w2 \<and> requests w' = requests w2)"
  proof (cases "status_code r = 429")
    case True
    show ?thesis
    proof (cases "retry_after_float r")
      case (Inl e)
      then show ?thesis using Suc.prems True eq by simp
    next
      case (Inr ra)
      show ?thesis
      proof (cases "ra + 0.1 < 0")
        case neg: True
        then show ?thesis using Suc.prems True Inr eq by (auto simp: logger_def)
      next
        case False
        let ?w3 = "(logger DEBUG ''Rate limited. Sleeping %.2fs'' w2)\<lparr>sleeps := sleeps w2 @ [ra + 0.1]\<rparr>"
        have "get_json_loop url params retries k (Suc attempt) ?w3 = Some (x, w')"
          using Suc.prems True Inr False eq by simp
        moreover have "files ?w3 = files w2" "dirs ?w3 = dirs w2" "requests ?w3 = requests w2"
          by (simp_all add: logger_def)
        ultimately show ?thesis by blast
      qed
    qed
  next
    case n429: False
    show ?thesis
    proof (cases "status_code r \<ge> 500")
      case True
      let ?w3 = "(logger WARNING ''Server error %s for %s (attempt %s)'' w2)
             \<lparr>sleeps := sleeps w2 @ [min (2 ^ attempt) 10]\<rparr>"
      have "get_json_loop url params retries k (Suc attempt) ?w3 = Some (x, w')"
        using Suc.prems True n429 eq by simp
      moreover have "files ?w3 = files w2" "dirs ?w3 = dirs w2" "requests ?w3 = requests w2"
        by (simp_all add: logger_def)
      ultimately show ?thesis by blast
    next
      case False
      then show ?thesis using Suc.prems n429 eq by (auto split: if_splits option.splits)
    qed
  qed
  then show ?case
  proof
    assume "\<exists>w3. files w3 = files w2 \<and> dirs w3 = dirs w2 \<and> requests w3 = requests w2 \<and>
            get_json_loop url params retries k (Suc attempt) w3 = Some (x, w')"
    then obtain w3 where w3: "files w3 = files w2" "dirs w3 = dirs w2" "requests w3 = requests w2"
      "get_json_loop url params retries k (Suc attempt) w3 = Some (x, w')" by blast
    from Suc.IH [OF w3(4)] obtain n where
      "files w' = files w3" "dirs w' = dirs w3" "requests w' = requests w3 @ replicate n (url, params)"
      by blast
    then have "files w' = files w" "dirs w' = dirs w"
      "requests w' = requests w @ replicate (Suc n) (url, params)"
      using w3(1-3) base by (simp_all add: replicate_append_same)
    then show ?thesis by blast
  next
    assume "files w' = files w2 \<and> dirs w' = dirs w2 \<and> requests w' = requests w2"
    then have "files w' = files w" "dirs w' = dirs w"
      "requests w' = requests w @ replicate (Suc 0) (url, params)"
      using base by simp_all
    then show ?thesis by blast
  qed
qed

lemma get_json_frame:
  assumes "get_json url params retries w = Some (x, w')"
  shows "files w' = files w \<and> dirs w' = dirs w \<and>
         (\<exists>n. requests w' = requests w @ replicate n (url, params) \<and> (0 < retries \<longrightarrow> 0 < n))"
  using get_json_loop_frame [of url params retries "nat retries" 1 w x w'] assms
  by (auto simp: get_json_def)

lemmas run_defs = io_defs get_json_def wait_def session_get_def trim_windows_def logger_def
  time_sleep_def retry_after_float_def bare_world_def RiotRateLimiter_init_def
  ok_response_def status_response_def match_doc_def exists_def match_path_def timeline_path_def
  path_join_def match_url_def timeline_url_def MATCH_ROUTE_def LEAGUE_ROUTE_def
  write_text_def ensure_directory_def py_get_def

subsection \<open>\<^verbatim>\<open>download_match_bundle\<close>\<close>

text \<open>
  Claim C1. When the detail file and the timeline file of a match are both on disk,
  \<^verbatim>\<open>download_match_bundle\<close> returns \<^verbatim>\<open>(True, "cached")\<close> and leaves the world as it is: no
  request is sent, no response is consumed, nothing is written. The same holds for a
  second call after the first.
\<close>

theorem download_match_bundle_cached:
  assumes "exists (match_path dir match_id) w"
    and "exists (timeline_path dir match_id) w"
  shows "download_match_bundle match_id dir min_d allowed_queue_id w
           = Some (Inr (True, ''cached''), w) \<and>
         io_bind (download_match_bundle match_id dir min_d allowed_queue_id)
           (\<lambda>_. download_match_bundle match_id dir min_d allowed_queue_id) w
           = Some (Inr (True, ''cached''), w)"
  using assms by (simp add: download_match_bundle_def io_bind_def io_get_def io_return_def)

text \<open>Claim C1, witness: the bundle of \<^verbatim>\<open>EUN1_1\<close> is complete.\<close>

theorem download_match_bundle_cached_witness:
  "exists (match_path ''data/raw'' ''EUN1_1'') complete_bundle_world \<and>
   exists (timeline_path ''data/raw'' ''EUN1_1'') complete_bundle_world \<and>
   download_match_bundle ''EUN1_1'' ''data/raw'' 900 (Some 420) complete_bundle_world
     = Some (Inr (True, ''cached''), complete_bundle_world)"
proof -
  have a: "exists (match_path ''data/raw'' ''EUN1_1'') complete_bundle_world"
    by (simp add: exists_def match_path_def path_join_def complete_bundle_world_def bare_world_def)
  have b: "exists (timeline_path ''data/raw'' ''EUN1_1'') complete_bundle_world"
    by (simp add: exists_def timeline_path_def path_join_def complete_bundle_world_def bare_world_def)
  from download_match_bundle_cached [OF a b, of 900 "Some 420"] a b show ?thesis by simp
qed

text \<open>What \<^verbatim>\<open>download_match_bundle\<close> does once the detail document is fetched.\<close>

lemma download_fetch:
  assumes "\<not> (exists (match_path dir match_id) w \<and> exists (timeline_path dir match_id) w)"
    and "get_json (match_url match_id) [] 5 w = Some (Inr match_json, w1)"
    and "py_get_default match_json ''info'' (JObj []) = Inr info"
    and "py_get info ''queueId'' = Inr q"
  shows "download_match_bundle match_id dir min_d allowed_queue_id w =
     (if allowed_queue_id \<noteq> None \<and> py_ne_int q (the allowed_queue_id) then
        Some (Inr (False, ''queue''), logger DEBUG ''Skipping %s (queue %s)'' w1)
      else
        io_bind (io_lift (py_get_default info ''gameDuration'' (JInt 0))) (\<lambda>d.
        io_bind (io_lift_option (py_int d)) (\<lambda>game_duration.
          if game_duration < min_d then
            io_bind (io_modify (logger DEBUG ''Skipping %s (duration %ss)'')) (\<lambda>_.
            io_return (False, ''duration''))
          else
            io_bind (io_modify (ensure_directory dir)) (\<lambda>_.
            io_bind (io_modify (write_text (match_path dir match_id) (Json match_json))) (\<lambda>_.
            io_bind (io_get (exists (timeline_path dir match_id))) (\<lambda>have_timeline.
              if have_timeline then io_return (True, ''stored'')
              else
                io_bind (except_RuntimeError
                           (io_bind (get_json (timeline_url match_id) [] 5) (\<lambda>timeline_json.
                            io_return (Some timeline_json)))
                           (\<lambda>exc.
                            io_bind (io_modify (logger WARNING ''Timeline unavailable for %s: %s'')) (\<lambda>_.
                            io_return None))) (\<lambda>fetched.
                case fetched of
                  None \<Rightarrow> io_return (False, ''timeline'')
                | Some timeline_json \<Rightarrow>
                    io_bind (io_modify (write_text (timeline_path dir match_id) (Json timeline_json))) (\<lambda>_.
                    io_return (True, ''stored'')))))))) w1)"
proof -
  have nb: "(exists (match_path dir match_id) w \<and> exists (timeline_path dir match_id) w) = False"
    using assms(1) by blast
  show ?thesis
    unfolding download_match_bundle_def
    by (simp add: nb assms(2-4) io_bind_def io_get_def io_return_def io_lift_def io_modify_def)
qed

lemma rejected_fetch_writes_nothing:
  assumes "\<not> (exists (match_path dir match_id) w \<and> exists (timeline_path dir match_id) w)"
    and "get_json (match_url match_id) [] 5 w = Some (Inr match_json, w1)"
    and "py_get_default match_json ''info'' (JObj []) = Inr info"
    and "py_get info ''queueId'' = Inr q"
    and "(allowed_queue_id \<noteq> None \<and> py_ne_int q (the allowed_queue_id)) \<or>
         (\<exists>d n. py_get_default info ''gameDuration'' (JInt 0) = Inr d \<and>
                py_int d = Some (Inr n) \<and> n < min_d)"
  shows "\<exists>w'. download_match_bundle match_id dir min_d allowed_queue_id w =
           Some (Inr (False, if allowed_queue_id \<noteq> None \<and> py_ne_int q (the allowed_queue_id)
                             then ''queue'' else ''duration''), w') \<and>
           files w' = files w \<and> dirs w' = dirs w"
proof -
  have fr: "files w1 = files w" "dirs w1 = dirs w"
    using get_json_frame [OF assms(2)] by simp_all
  note eq = download_fetch [OF assms(1-4), of min_d allowed_queue_id]
  show ?thesis
  proof (cases "allowed_queue_id \<noteq> None \<and> py_ne_int q (the allowed_queue_id)")
    case True
    then show ?thesis using eq fr by (simp add: logger_def)
  next
    case False
    with assms(5) obtain d n where "py_get_default info ''gameDuration'' (JInt 0) = Inr d"
      "py_int d = Some (Inr n)" "n < min_d" by blast
    then show ?thesis using eq fr False
      by (simp add: io_defs logger_def)
  qed
qed

text \<open>
  Claim C4, counterexample. Both files of \<^verbatim>\<open>EUN1_5\<close> are on disk. The match is of queue
  450, not the configured 420, and lasted 600 seconds, below the minimum of 900; yet the
  call returns \<^verbatim>\<open>(True, "cached")\<close>, not \<^verbatim>\<open>(False, "queue")\<close>: the check of the files on
  disk comes before the fetch and the filters.
\<close>

theorem stale_bundle_counterexample:
  "files stale_bundle_world (match_path ''data/raw'' ''EUN1_5'') = Some (Json (match_doc 450 600)) \<and>
   map json_body (replies stale_bundle_world) = [Some (match_doc 450 600)] \<and>
   py_get_default (match_doc 450 600) ''info'' (JObj [])
     = Inr (JObj [(''queueId'', JInt 450), (''gameDuration'', JInt 600)]) \<and>
   py_ne_int (JInt 450) 420 \<and> (600::int) < 900 \<and>
   download_match_bundle ''EUN1_5'' ''data/raw'' 900 (Some 420) stale_bundle_world
     = Some (Inr (True, ''cached''), stale_bundle_world)"
  by (simp add: download_match_bundle_def stale_bundle_world_def run_defs)

text \<open>
  Claim C4, amended. When the bundle is complete on disk the call returns
  \<^verbatim>\<open>(True, "cached")\<close> and changes nothing, whatever the match. Otherwise the detail
  document is fetched, and if a queue filter is configured and the queue id of the
  document differs from it, or if its duration is below the minimum, the call returns
  \<open>False\<close> with the skip reason (\<^verbatim>\<open>"queue"\<close> when the queue filter rejects the match,
  \<^verbatim>\<open>"duration"\<close> otherwise), and the files and directories on disk are those from before
  the call.
\<close>

theorem rejected_match_writes_nothing:
  "(exists (match_path dir match_id) w \<and> exists (timeline_path dir match_id) w \<longrightarrow>
      download_match_bundle match_id dir min_d allowed_queue_id w = Some (Inr (True, ''cached''), w)) \<and>
   (\<not> (exists (match_path dir match_id) w \<and> exists (timeline_path dir match_id) w) \<and>
    get_json (match_url match_id) [] 5 w = Some (Inr match_json, w1) \<and>
    py_get_default match_json ''info'' (JObj []) = Inr info \<and>
    py_get info ''queueId'' = Inr q \<and>
    ((allowed_queue_id \<noteq> None \<and> py_ne_int q (the allowed_queue_id)) \<or>
     (\<exists>d n. py_get_default info ''gameDuration'' (JInt 0) = Inr d \<and>
            py_int d = Some (Inr n) \<and> n < min_d)) \<longrightarrow>
      (\<exists>w'. download_match_bundle match_id dir min_d allowed_queue_id w =
           Some (Inr (False, if allowed_queue_id \<noteq> None \<and> py_ne_int q (the allowed_queue_id)
                             then ''queue'' else ''duration''), w') \<and>
           files w' = files w \<and> dirs w' = dirs w))"
proof (intro conjI impI)
  assume "exists (match_path dir match_id) w \<and> exists (timeline_path dir match_id) w"
  then show "download_match_bundle match_id dir min_d allowed_queue_id w
      = Some (Inr (True, ''cached''), w)"
    by (simp add: download_match_bundle_def io_bind_def io_get_def io_return_def)
next
  assume h: "\<not> (exists (match_path dir match_id) w \<and> exists (timeline_path dir match_id) w) \<and>
    get_json (match_url match_id) [] 5 w = Some (Inr match_json, w1) \<and>
    py_get_default match_json ''info'' (JObj []) = Inr info \<and>
    py_get info ''queueId'' = Inr q \<and>
    ((allowed_queue_id \<noteq> None \<and> py_ne_int q (the allowed_queue_id)) \<or>
     (\<exists>d n. py_get_default info ''gameDuration'' (JInt 0) = Inr d \<and>
            py_int d = Some (Inr n) \<and> n < min_d))"
  show "\<exists>w'. download_match_bundle match_id dir min_d allowed_queue_id w =
           Some (Inr (False, if allowed_queue_id \<noteq> None \<and> py_ne_int q (the allowed_queue_id)
                             then ''queue'' else ''duration''), w') \<and>
           files w' = files w \<and> dirs w' = dirs w"
    by (rule rejected_fetch_writes_nothing) (use h in blast)+
qed

text \<open>Claim C4, witness: the complete bundle, a match of queue 450, and a match of 600
  seconds.\<close>

theorem rejected_match_writes_nothing_witness:
  "download_match_bundle ''EUN1_5'' ''data/raw'' 900 (Some 420) stale_bundle_world
     = Some (Inr (True, ''cached''), stale_bundle_world) \<and>
   (\<exists>w'. download_match_bundle ''EUN1_2'' ''data/raw'' 900 (Some 420) wrong_queue_world =
           Some (Inr (False, ''queue''), w') \<and>
         files w' = files wrong_queue_world \<and> dirs w' = dirs wrong_queue_world) \<and>
   (\<exists>w'. download_match_bundle ''EUN1_3'' ''data/raw'' 900 (Some 420) short_match_world =
           Some (Inr (False, ''duration''), w') \<and>
         files w' = files short_match_world \<and> dirs w' = dirs short_match_world)"
proof -
  have s1: "exists (match_path ''data/raw'' ''EUN1_5'') stale_bundle_world \<and>
            exists (timeline_path ''data/raw'' ''EUN1_5'') stale_bundle_world"
    by (simp add: exists_def match_path_def timeline_path_def path_join_def
        stale_bundle_world_def bare_world_def)
  have p0: "download_match_bundle ''EUN1_5'' ''data/raw'' 900 (Some 420) stale_bundle_world
     = Some (Inr (True, ''cached''), stale_bundle_world)"
    by (rule rejected_match_writes_nothing [THEN conjunct1, THEN mp, OF s1])
  have a1: "\<not> (exists (match_path ''data/raw'' ''EUN1_2'') wrong_queue_world \<and>
                exists (timeline_path ''data/raw'' ''EUN1_2'') wrong_queue_world)"
    by (simp add: exists_def wrong_queue_world_def bare_world_def)
  have "\<exists>w1. get_json (match_url ''EUN1_2'') [] 5 wrong_queue_world = Some (Inr (match_doc 450 1800), w1)"
    by (simp add: wrong_queue_world_def run_defs eval_nat_numeral)
  then obtain w1 where a2: "get_json (match_url ''EUN1_2'') [] 5 wrong_queue_world
      = Some (Inr (match_doc 450 1800), w1)" ..
  have a3: "py_get_default (match_doc 450 1800) ''info'' (JObj [])
      = Inr (JObj [(''queueId'', JInt 450), (''gameDuration'', JInt 1800)])"
    by (simp add: match_doc_def)
  have a4: "py_get (JObj [(''queueId'', JInt 450), (''gameDuration'', JInt 1800)]) ''queueId'' = Inr (JInt 450)"
    by (simp add: py_get_def)
  have a5: "(Some (420::int) \<noteq> None \<and> py_ne_int (JInt 450) (the (Some 420))) \<or>
         (\<exists>d n. py_get_default (JObj [(''queueId'', JInt 450), (''gameDuration'', JInt 1800)])
                   ''gameDuration'' (JInt 0) = Inr d \<and>
                py_int d = Some (Inr n) \<and> n < 900)"
    by simp
  have b1: "\<not> (exists (match_path ''data/raw'' ''EUN1_3'') short_match_world \<and>
                exists (timeline_path ''data/raw'' ''EUN1_3'') short_match_world)"
    by (simp add: exists_def short_match_world_def bare_world_def)
  have "\<exists>w1. get_json (match_url ''EUN1_3'') [] 5 short_match_world = Some (Inr (match_doc 420 600), w1)"
    by (simp add: short_match_world_def run_defs eval_nat_numeral)
  then obtain v1 where b2: "get_json (match_url ''EUN1_3'') [] 5 short_match_world
      = Some (Inr (match_doc 420 600), v1)" ..
  have b3: "py_get_default (match_doc 420 600) ''info'' (JObj [])
      = Inr (JObj [(''queueId'', JInt 420), (''gameDuration'', JInt 600)])"
    by (simp add: match_doc_def)
  have b4: "py_get (JObj [(''queueId'', JInt 420), (''gameDuration'', JInt 600)]) ''queueId'' = Inr (JInt 420)"
    by (simp add: py_get_def)
  have b5: "(Some (420::int) \<noteq> None \<and> py_ne_int (JInt 420) (the (Some 420))) \<or>
         (\<exists>d n. py_get_default (JObj [(''queueId'', JInt 420), (''gameDuration'', JInt 600)])
                   ''gameDuration'' (JInt 0) = Inr d \<and>
                py_int d = Some (Inr n) \<and> n < 900)"
    by simp
  have p1: "\<exists>w'. download_match_bundle ''EUN1_2'' ''data/raw'' 900 (Some 420) wrong_queue_world =
           Some (Inr (False, if Some (420::int) \<noteq> None \<and> py_ne_int (JInt 450) (the (Some 420))
                             then ''queue'' else ''duration''), w') \<and>
         files w' = files wrong_queue_world \<and> dirs w' = dirs wrong_queue_world"
    by (rule rejected_match_writes_nothing [THEN conjunct2, THEN mp,
          OF conjI [OF a1 conjI [OF a2 conjI [OF a3 conjI [OF a4 a5]]]]])
  have p2: "\<exists>w'. download_match_bundle ''EUN1_3'' ''data/raw'' 900 (Some 420) short_match_world =
           Some (Inr (False, if Some (420::int) \<noteq> None \<and> py_ne_int (JInt 420) (the (Some 420))
                             then ''queue'' else ''duration''), w') \<and>
         files w' = files short_match_world \<and> dirs w' = dirs short_match_world"
    by (rule rejected_match_writes_nothing [THEN conjunct2, THEN mp,
          OF conjI [OF b1 conjI [OF b2 conjI [OF b3 conjI [OF b4 b5]]]]])
  show ?thesis using p0 p1 p2 by simp
qed

text \<open>
  Claim C9, counterexample. The document \<^verbatim>\<open>{}\<close> has neither \<^verbatim>\<open>info\<close> nor
  \<^verbatim>\<open>gameDuration\<close> and the minimum duration 900 is positive, yet with the queue filter
  420 the call returns \<^verbatim>\<open>(False, "queue")\<close>, not \<^verbatim>\<open>(False, "duration")\<close>: the queue is
  checked first, and the queue id of such a document is \<^verbatim>\<open>None\<close>.
\<close>

theorem missing_duration_counterexample:
  "py_get_default (JObj []) ''info'' (JObj []) = Inr (JObj []) \<and>
   py_get_default (JObj []) ''gameDuration'' (JInt 0) = Inr (JInt 0) \<and>
   (0::int) < 900 \<and>
   map_option fst (download_match_bundle ''EUN1_4'' ''data/raw'' 900 (Some 420) no_info_world)
     = Some (Inr (False, ''queue'')) \<and>
   map_option fst (download_match_bundle ''EUN1_4'' ''data/raw'' 900 (Some 420) no_info_world)
     \<noteq> Some (Inr (False, ''duration''))"
  by (simp add: download_match_bundle_def no_info_world_def run_defs eval_nat_numeral)

text \<open>
  Claim C9, amended. For a fetched detail document whose \<^verbatim>\<open>info\<close> is absent, or is a dict
  without \<^verbatim>\<open>gameDuration\<close>, and a positive minimum duration, \<^verbatim>\<open>download_match_bundle\<close>
  returns \<^verbatim>\<open>(False, "duration")\<close> when no queue filter is configured or the queue id of
  the document equals it, and \<^verbatim>\<open>(False, "queue")\<close> otherwise; either way nothing is
  written to disk.
\<close>

theorem missing_duration_skipped:
  assumes "\<not> (exists (match_path dir match_id) w \<and> exists (timeline_path dir match_id) w)"
    and "get_json (match_url match_id) [] 5 w = Some (Inr match_json, w1)"
    and "py_get_default match_json ''info'' (JObj []) = Inr (JObj kvs)"
    and "map_of kvs ''gameDuration'' = None"
    and "0 < min_d"
  shows "\<exists>w'. download_match_bundle match_id dir min_d allowed_queue_id w =
           Some (Inr (False,
             if allowed_queue_id \<noteq> None \<and>
                py_ne_int (case map_of kvs ''queueId'' of None \<Rightarrow> JNull | Some v \<Rightarrow> v)
                  (the allowed_queue_id)
             then ''queue'' else ''duration''), w') \<and>
           files w' = files w \<and> dirs w' = dirs w"
proof -
  let ?q = "case map_of kvs ''queueId'' of None \<Rightarrow> JNull | Some v \<Rightarrow> v"
  have q: "py_get (JObj kvs) ''queueId'' = Inr ?q"
    by (simp add: py_get_def split: option.splits)
  have fr: "files w1 = files w" "dirs w1 = dirs w"
    using get_json_frame [OF assms(2)] by simp_all
  note eq = download_fetch [OF assms(1-3) q, of min_d allowed_queue_id]
  show ?thesis
  proof (cases "allowed_queue_id \<noteq> None \<and> py_ne_int ?q (the allowed_queue_id)")
    case True
    then show ?thesis using eq fr by (simp add: logger_def)
  next
    case False
    then show ?thesis using eq fr assms(4,5)
      by (simp add: io_defs logger_def)
  qed
qed

text \<open>Claim C9, witness: the document \<^verbatim>\<open>{}\<close>, without and with a queue filter.\<close>

theorem missing_duration_skipped_witness:
  "(\<exists>w'. download_match_bundle ''EUN1_4'' ''data/raw'' 900 None no_info_world =
           Some (Inr (False, ''duration''), w') \<and> files w' = files no_info_world) \<and>
   (\<exists>w'. download_match_bundle ''EUN1_4'' ''data/raw'' 900 (Some 420) no_info_world =
           Some (Inr (False, ''queue''), w') \<and> files w' = files no_info_world)"
proof -
  have a1: "\<not> (exists (match_path ''data/raw'' ''EUN1_4'') no_info_world \<and>
                exists (timeline_path ''data/raw'' ''EUN1_4'') no_info_world)"
    by (simp add: exists_def no_info_world_def bare_world_def)
  have "\<exists>w1. get_json (match_url ''EUN1_4'') [] 5 no_info_world = Some (Inr (JObj []), w1)"
    by (simp add: no_info_world_def run_defs eval_nat_numeral)
  then obtain w1 where a2: "get_json (match_url ''EUN1_4'') [] 5 no_info_world
      = Some (Inr (JObj []), w1)" ..
  have a3: "py_get_default (JObj []) ''info'' (JObj []) = Inr (JObj [])"
    by simp
  have a4: "map_of ([] :: (string \<times> json) list) ''gameDuration'' = None"
    by simp
  have a5: "(0::int) < 900" by simp
  from missing_duration_skipped [OF a1 a2 a3 a4 a5, of None]
       missing_duration_skipped [OF a1 a2 a3 a4 a5, of "Some 420"]
  show ?thesis by auto
qed




subsection \<open>The rate limiter\<close>

lemma window_inv_trim:
  assumes "window_inv d cap win ts (now # rest)" and "\<forall>x\<in>set rest. now \<le> x"
  shows "window_inv d cap (dropWhile (\<lambda>t. now - t \<ge> d) win) ts (now # rest)"
proof -
  from assms(1) obtain pre where pre: "ts = pre @ win"
    "\<forall>t\<in>set pre. \<forall>x\<in>set (now # rest). t + d \<le> x"
    and cnt: "\<forall>s. length (in_window d s ts) \<le> nat cap"
    unfolding window_inv_def by blast
  let ?p = "\<lambda>t. now - t \<ge> d"
  have 1: "ts = (pre @ takeWhile ?p win) @ dropWhile ?p win"
    using pre(1) by simp
  have 2: "\<forall>t\<in>set (pre @ takeWhile ?p win). \<forall>x\<in>set (now # rest). t + d \<le> x"
  proof (intro ballI)
    fix t x assume t: "t \<in> set (pre @ takeWhile ?p win)" and x: "x \<in> set (now # rest)"
    show "t + d \<le> x"
    proof (cases "t \<in> set pre")
      case True then show ?thesis using pre(2) x by blast
    next
      case False
      with t have "t \<in> set (takeWhile ?p win)" by simp
      then have "now - t \<ge> d" by (rule set_takeWhileD [THEN conjunct2])
      moreover have "now \<le> x" using x assms(2) by auto
      ultimately show ?thesis by linarith
    qed
  qed
  show ?thesis unfolding window_inv_def using 1 2 cnt by blast
qed

lemma window_inv_admit:
  assumes "window_inv d cap win ts (now # rest)" and "int (length win) < cap"
  shows "window_inv d cap (win @ [now]) (ts @ [now]) rest"
proof -
  from assms(1) obtain pre where pre: "ts = pre @ win"
    "\<forall>t\<in>set pre. \<forall>x\<in>set (now # rest). t + d \<le> x"
    and cnt: "\<forall>s. length (in_window d s ts) \<le> nat cap"
    unfolding window_inv_def by blast
  have a: "ts @ [now] = pre @ (win @ [now])" using pre(1) by simp
  have b: "\<forall>t\<in>set pre. \<forall>x\<in>set rest. t + d \<le> x" using pre(2) by simp
  have c: "length (in_window d s (ts @ [now])) \<le> nat cap" for s
  proof (cases "s < now \<and> now \<le> s + d")
    case False
    then have "in_window d s (ts @ [now]) = in_window d s ts"
      by (auto simp: in_window_def)
    then show ?thesis using cnt by simp
  next
    case True
    have "in_window d s pre = []"
      unfolding in_window_def filter_empty_conv
    proof
      fix t assume "t \<in> set pre"
      then have "t + d \<le> now" using pre(2) by simp
      then show "\<not> (s < t \<and> t \<le> s + d)" using True by linarith
    qed
    then have "in_window d s (ts @ [now]) = in_window d s win @ [now]"
      using True pre(1) by (simp add: in_window_def)
    moreover have "length (in_window d s win) \<le> length win"
      by (simp add: in_window_def)
    ultimately show ?thesis using assms(2) by simp
  qed
  show ?thesis unfolding window_inv_def using a b c by blast
qed

lemma window_inv_rest:
  "window_inv d cap win ts (now # rest) \<Longrightarrow> window_inv d cap win ts rest"
  unfolding window_inv_def by auto

lemma wait_loop_inv:
  assumes "wait_loop l clk sl = Some (l', rest, sl')" and "sorted clk" and "limiter_inv l ts clk"
  shows "\<exists>now. second_window l' \<noteq> [] \<and> last (second_window l') = now \<and>
           limiter_inv l' (ts @ [now]) rest \<and> sorted rest \<and>
           per_second l' = per_second l \<and> per_two_minutes l' = per_two_minutes l"
  using assms
proof (induction clk arbitrary: l sl)
  case Nil
  then show ?case by simp
next
  case (Cons now clk)
  let ?l1 = "trim_windows now l"
  have le: "\<forall>x\<in>set clk. now \<le> x" and srt: "sorted clk" using Cons.prems(2) by auto
  have inv1: "limiter_inv ?l1 ts (now # clk)"
    using Cons.prems(3) le
    by (simp add: limiter_inv_def trim_windows_def window_inv_trim)
  show ?case
  proof (cases "int (length (second_window ?l1)) < per_second ?l1
         \<and> int (length (two_minute_window ?l1)) < per_two_minutes ?l1")
    case True
    then have l': "l' = ?l1\<lparr>second_window := second_window ?l1 @ [now],
                    two_minute_window := two_minute_window ?l1 @ [now]\<rparr>" and r: "rest = clk"
      using Cons.prems(1) by (auto simp: Let_def split: if_splits)
    have "limiter_inv l' (ts @ [now]) clk"
      using inv1 True unfolding l' limiter_inv_def
      by (simp add: window_inv_admit)
    then show ?thesis using l' r srt by (simp add: trim_windows_def)
  next
    case False
    then have "wait_loop ?l1 clk (sl @ [calculate_sleep now ?l1]) = Some (l', rest, sl')"
      using Cons.prems(1) by (auto simp: Let_def split: if_splits)
    moreover have "limiter_inv ?l1 ts clk"
      using inv1 by (auto simp: limiter_inv_def intro: window_inv_rest)
    ultimately show ?thesis using Cons.IH srt by (fastforce simp: trim_windows_def)
  qed
qed

lemma wait_calls_inv:
  assumes "wait_calls n w = Some (ts, w')" and "sorted (clock w)"
    and "limiter_inv (rate_limiter w) ts0 (clock w)"
  shows "limiter_inv (rate_limiter w') (ts0 @ ts) (clock w') \<and>
         per_second (rate_limiter w') = per_second (rate_limiter w) \<and>
         per_two_minutes (rate_limiter w') = per_two_minutes (rate_limiter w)"
  using assms
proof (induction n arbitrary: w ts ts0)
  case 0
  then show ?case by simp
next
  case (Suc n)
  from Suc.prems(1) obtain r w1 ts1 where w1: "wait w = Some (r, w1)"
    and rec: "wait_calls n w1 = Some (ts1, w')"
    and ts: "ts = last (second_window (rate_limiter w1)) # ts1"
    by (auto split: option.splits prod.splits)
  from w1 obtain l1 rest sl1 where wl: "wait_loop (rate_limiter w) (clock w) (sleeps w) = Some (l1, rest, sl1)"
    and w1_eq: "w1 = w\<lparr>rate_limiter := l1, clock := rest, sleeps := sl1\<rparr>"
    by (auto simp: wait_def split: option.splits)
  from wait_loop_inv [OF wl Suc.prems(2) Suc.prems(3)]
  have inv1: "limiter_inv l1 (ts0 @ [last (second_window l1)]) rest" and srt: "sorted rest"
    and caps: "per_second l1 = per_second (rate_limiter w)" "per_two_minutes l1 = per_two_minutes (rate_limiter w)"
    by auto
  have "limiter_inv (rate_limiter w') ((ts0 @ [last (second_window l1)]) @ ts1) (clock w') \<and>
         per_second (rate_limiter w') = per_second (rate_limiter w1) \<and>
         per_two_minutes (rate_limiter w') = per_two_minutes (rate_limiter w1)"
    by (rule Suc.IH [OF rec]) (use inv1 srt w1_eq in simp_all)
  then show ?case using ts w1_eq caps by simp
qed

lemma limiter_inv_init: "limiter_inv (RiotRateLimiter_init c1 c2) [] clk"
  by (simp add: limiter_inv_def window_inv_def RiotRateLimiter_init_def in_window_def)

lemma wait_loop_admitted:
  "wait_loop l clk sl = Some (l', rest, sl') \<Longrightarrow>
     \<exists>now k1 k2. now \<in> set clk \<and>
       second_window l' = drop k1 (second_window l) @ [now] \<and>
       two_minute_window l' = drop k2 (two_minute_window l) @ [now] \<and>
       int (length (drop k1 (second_window l))) < per_second l \<and>
       int (length (drop k2 (two_minute_window l))) < per_two_minutes l \<and>
       per_second l' = per_second l \<and> per_two_minutes l' = per_two_minutes l"
proof (induction clk arbitrary: l sl)
  case Nil
  then show ?case by simp
next
  case (Cons now clk)
  let ?l1 = "trim_windows now l"
  let ?k1 = "length (takeWhile (\<lambda>t. now - t \<ge> 1) (second_window l))"
  let ?k2 = "length (takeWhile (\<lambda>t. now - t \<ge> 120) (two_minute_window l))"
  have s1: "second_window ?l1 = drop ?k1 (second_window l)"
    and s2: "two_minute_window ?l1 = drop ?k2 (two_minute_window l)"
    and caps: "per_second ?l1 = per_second l" "per_two_minutes ?l1 = per_two_minutes l"
    by (simp_all add: trim_windows_def dropWhile_eq_drop)
  show ?case
  proof (cases "int (length (second_window ?l1)) < per_second ?l1
         \<and> int (length (two_minute_window ?l1)) < per_two_minutes ?l1")
    case True
    then have l': "l' = ?l1\<lparr>second_window := second_window ?l1 @ [now],
                    two_minute_window := two_minute_window ?l1 @ [now]\<rparr>"
      using Cons.prems(1) by (auto simp: Let_def split: if_splits)
    have "second_window l' = drop ?k1 (second_window l) @ [now]"
      "two_minute_window l' = drop ?k2 (two_minute_window l) @ [now]"
      "per_second l' = per_second l" "per_two_minutes l' = per_two_minutes l"
      using l' s1 s2 caps by simp_all
    moreover have "int (length (drop ?k1 (second_window l))) < per_second l"
      "int (length (drop ?k2 (two_minute_window l))) < per_two_minutes l"
      using True s1 s2 caps by simp_all
    ultimately show ?thesis by (intro exI [of _ now] exI [of _ ?k1] exI [of _ ?k2]) simp
  next
    case False
    then have "wait_loop ?l1 clk (sl @ [calculate_sleep now ?l1]) = Some (l', rest, sl')"
      using Cons.prems(1) by (auto simp: Let_def split: if_splits)
    from Cons.IH [OF this] obtain t j1 j2 where t: "t \<in> set clk"
      and a: "second_window l' = drop j1 (second_window ?l1) @ [t]"
        "two_minute_window l' = drop j2 (two_minute_window ?l1) @ [t]"
        "int (length (drop j1 (second_window ?l1))) < per_second ?l1"
        "int (length (drop j2 (two_minute_window ?l1))) < per_two_minutes ?l1"
        "per_second l' = per_second ?l1" "per_two_minutes l' = per_two_minutes ?l1"
      by blast
    have "second_window l' = drop (?k1 + j1) (second_window l) @ [t]"
      "two_minute_window l' = drop (?k2 + j2) (two_minute_window l) @ [t]"
      "int (length (drop (?k1 + j1) (second_window l))) < per_second l"
      "int (length (drop (?k2 + j2) (two_minute_window l))) < per_two_minutes l"
      "per_second l' = per_second l" "per_two_minutes l' = per_two_minutes l"
      using a unfolding s1 s2 caps by (simp_all add: add.commute)
    then show ?thesis using t
      by (intro exI [of _ t] exI [of _ "?k1 + j1"] exI [of _ "?k2 + j2"]) simp
  qed
qed

text \<open>
  Claim C5, counterexample. The clock reads 10, 10, 11 and then 10 again, and the short
  window has capacity 2. All four calls are admitted, and the window of one time unit
  that ends at 10 holds three admitted timestamps.
\<close>

theorem clock_rollback_counterexample:
  "rate_limiter rollback_world = RiotRateLimiter_init 2 95 \<and>
   clock rollback_world = [10, 10, 11, 10] \<and>
   map_option fst (wait_calls 4 rollback_world) = Some [10, 10, 11, 10] \<and>
   length (in_window 1 9 [10, 10, 11, 10]) = 3 \<and>
   \<not> length (in_window 1 9 [10, 10, 11, 10]) \<le> nat 2"
  by (simp add: rollback_world_def bare_world_def wait_def RiotRateLimiter_init_def
      trim_windows_def calculate_sleep_def in_window_def eval_nat_numeral)

text \<open>
  Claim C5, amended. Take a limiter with empty windows and capacities \<open>c1\<close> and \<open>c2\<close>, a
  clock whose readings never decrease, and any number \<open>n\<close> of calls of \<^verbatim>\<open>wait\<close> that
  return. Then no sliding window of 1 time unit holds more than \<open>c1\<close> of the admitted
  timestamps and no sliding window of 120 time units holds more than \<open>c2\<close> of them.
  Moreover a call of \<^verbatim>\<open>wait\<close> in any world is admitted only with both deques, after
  eviction, under their capacity: it leaves each deque as an end part of the former one,
  shorter than the capacity, followed by the admitted timestamp.
\<close>

theorem rate_limiter_windows:
  assumes "sorted (clock w)"
    and "rate_limiter w = RiotRateLimiter_init c1 c2"
    and "wait_calls n w = Some (ts, w')"
  shows "(\<forall>s. length (in_window 1 s ts) \<le> nat c1) \<and>
         (\<forall>s. length (in_window 120 s ts) \<le> nat c2) \<and>
         (\<forall>v r v'. wait v = Some (r, v') \<longrightarrow>
            (\<exists>now k1 k2.
               second_window (rate_limiter v') = drop k1 (second_window (rate_limiter v)) @ [now] \<and>
               two_minute_window (rate_limiter v') = drop k2 (two_minute_window (rate_limiter v)) @ [now] \<and>
               int (length (drop k1 (second_window (rate_limiter v)))) < per_second (rate_limiter v) \<and>
               int (length (drop k2 (two_minute_window (rate_limiter v)))) < per_two_minutes (rate_limiter v)))"
proof -
  have "limiter_inv (rate_limiter w) [] (clock w)"
    using assms(2) by (simp add: limiter_inv_init)
  from wait_calls_inv [OF assms(3) assms(1) this]
  have "limiter_inv (rate_limiter w') ts (clock w')"
    and "per_second (rate_limiter w') = c1" "per_two_minutes (rate_limiter w') = c2"
    using assms(2) by (simp_all add: RiotRateLimiter_init_def)
  then have a: "\<forall>s. length (in_window 1 s ts) \<le> nat c1"
    and b: "\<forall>s. length (in_window 120 s ts) \<le> nat c2"
    by (simp_all add: limiter_inv_def window_inv_def)
  have c: "\<exists>now k1 k2.
               second_window (rate_limiter v') = drop k1 (second_window (rate_limiter v)) @ [now] \<and>
               two_minute_window (rate_limiter v') = drop k2 (two_minute_window (rate_limiter v)) @ [now] \<and>
               int (length (drop k1 (second_window (rate_limiter v)))) < per_second (rate_limiter v) \<and>
               int (length (drop k2 (two_minute_window (rate_limiter v)))) < per_two_minutes (rate_limiter v)"
    if "wait v = Some (r, v')" for v r v'
  proof -
    from that obtain l1 rest sl1
      where wl: "wait_loop (rate_limiter v) (clock v) (sleeps v) = Some (l1, rest, sl1)"
        and v': "v' = v\<lparr>rate_limiter := l1, clock := rest, sleeps := sl1\<rparr>"
      by (auto simp: wait_def split: option.splits)
    from wait_loop_admitted [OF wl] show ?thesis unfolding v' by auto
  qed
  show ?thesis using a b c by blast
qed

theorem rate_limiter_windows_witness:
  "sorted (clock limiter_scenario) \<and>
   rate_limiter limiter_scenario = RiotRateLimiter_init 1 2 \<and>
   map_option fst (wait_calls 2 limiter_scenario) = Some [0, 1] \<and>
   (\<forall>s. length (in_window 1 s [0, 1]) \<le> 1) \<and>
   (\<forall>s. length (in_window 120 s [0, 1]) \<le> 2) \<and>
   (\<exists>v'. wait limiter_scenario = Some (Inr (), v') \<and> second_window (rate_limiter v') = [0])"
proof -
  let ?w' = "limiter_scenario\<lparr>clock := [], sleeps := [239/2],
      rate_limiter := \<lparr>per_second = 1, per_two_minutes = 2, second_window = [1], two_minute_window = [0, 1]\<rparr>\<rparr>"
  have srt: "sorted (clock limiter_scenario)"
    by (simp add: limiter_scenario_def)
  have init: "rate_limiter limiter_scenario = RiotRateLimiter_init 1 2"
    by (simp add: limiter_scenario_def)
  have run: "wait_calls 2 limiter_scenario = Some ([0, 1], ?w')"
    by (simp add: numeral_2_eq_2 wait_def limiter_scenario_def bare_world_def
        RiotRateLimiter_init_def trim_windows_def calculate_sleep_def)
  have one: "\<exists>v'. wait limiter_scenario = Some (Inr (), v') \<and> second_window (rate_limiter v') = [0]"
    by (simp add: wait_def limiter_scenario_def bare_world_def
        RiotRateLimiter_init_def trim_windows_def)
  from rate_limiter_windows [OF srt init run] srt init run one
  show ?thesis by simp
qed


subsection \<open>Retries of \<^verbatim>\<open>get_json\<close>\<close>

lemma wait_admits:
  assumes "clock w = now # rest"
    and "int (length (second_window (rate_limiter w))) < per_second (rate_limiter w)"
    and "int (length (two_minute_window (rate_limiter w))) < per_two_minutes (rate_limiter w)"
  shows "\<exists>l'. wait w = Some (Inr (), w\<lparr>rate_limiter := l', clock := rest\<rparr>) \<and>
           per_second l' = per_second (rate_limiter w) \<and>
           per_two_minutes l' = per_two_minutes (rate_limiter w) \<and>
           length (second_window l') \<le> Suc (length (second_window (rate_limiter w))) \<and>
           length (two_minute_window l') \<le> Suc (length (two_minute_window (rate_limiter w)))"
proof -
  let ?l = "rate_limiter w"
  let ?l1 = "trim_windows now ?l"
  have a: "length (second_window ?l1) \<le> length (second_window ?l)"
    and b: "length (two_minute_window ?l1) \<le> length (two_minute_window ?l)"
    and c: "per_second ?l1 = per_second ?l" "per_two_minutes ?l1 = per_two_minutes ?l"
    by (simp_all add: trim_windows_def length_dropWhile_le)
  have ok: "int (length (second_window ?l1)) < per_second ?l1
         \<and> int (length (two_minute_window ?l1)) < per_two_minutes ?l1"
    using a b c assms(2,3) by linarith
  let ?l' = "?l1\<lparr>second_window := second_window ?l1 @ [now],
                    two_minute_window := two_minute_window ?l1 @ [now]\<rparr>"
  have "wait_loop ?l (now # rest) (sleeps w) = Some (?l', rest, sleeps w)"
    using ok by (simp add: Let_def)
  then have "wait w = Some (Inr (), w\<lparr>rate_limiter := ?l', clock := rest\<rparr>)"
    using assms(1) by (simp add: wait_def)
  moreover have "per_second ?l' = per_second ?l" "per_two_minutes ?l' = per_two_minutes ?l"
    "length (second_window ?l') \<le> Suc (length (second_window ?l))"
    "length (two_minute_window ?l') \<le> Suc (length (two_minute_window ?l))"
    using a b c by simp_all
  ultimately show ?thesis by blast
qed

lemma server_error_step:
  assumes "clock w = now # rest" and "replies w = r # rs" and "status_code r \<ge> 500"
    and "slack (Suc n) w"
  shows "\<exists>w3. get_json_loop url params retries (Suc k) attempt w =
                get_json_loop url params retries k (Suc attempt) w3 \<and>
              clock w3 = rest \<and> replies w3 = rs \<and> slack n w3 \<and>
              requests w3 = requests w @ [(url, params)]"
proof -
  from assms(4) have
    "int (length (second_window (rate_limiter w))) < per_second (rate_limiter w)"
    "int (length (two_minute_window (rate_limiter w))) < per_two_minutes (rate_limiter w)"
    by (simp_all add: slack_def)
  from wait_admits [OF assms(1) this] obtain l' where
    w1: "wait w = Some (Inr (), w\<lparr>rate_limiter := l', clock := rest\<rparr>)"
    and l': "per_second l' = per_second (rate_limiter w)"
      "per_two_minutes l' = per_two_minutes (rate_limiter w)"
      "length (second_window l') \<le> Suc (length (second_window (rate_limiter w)))"
      "length (two_minute_window l') \<le> Suc (length (two_minute_window (rate_limiter w)))"
    by blast
  let ?w1 = "w\<lparr>rate_limiter := l', clock := rest\<rparr>"
  let ?w2 = "?w1\<lparr>replies := rs, requests := requests ?w1 @ [(url, params)]\<rparr>"
  have w2: "session_get url params ?w1 = Some (Inr r, ?w2)"
    using assms(2) by (simp add: session_get_def)
  let ?w3 = "(logger WARNING ''Server error %s for %s (attempt %s)'' ?w2)
             \<lparr>sleeps := sleeps ?w2 @ [min (2 ^ attempt) 10]\<rparr>"
  have "get_json_loop url params retries (Suc k) attempt w =
        get_json_loop url params retries k (Suc attempt) ?w3"
    using get_json_loop_Suc [OF w1 w2, of retries k attempt] assms(3) by simp
  moreover have "clock ?w3 = rest" "replies ?w3 = rs" "requests ?w3 = requests w @ [(url, params)]"
    by (simp_all add: logger_def)
  moreover have "slack n ?w3"
    using assms(4) l' by (simp add: slack_def logger_def)
  ultimately show ?thesis by blast
qed

lemma server_errors_exhaust:
  assumes "replies w = rs @ others" and "\<forall>r\<in>set rs. status_code r \<ge> 500"
    and "length rs = k" and "k \<le> length (clock w)" and "slack k w"
  shows "\<exists>w'. get_json_loop url params retries k attempt w =
            Some (Inl (RuntimeError (Giving_up retries)), w') \<and>
          replies w' = others \<and> requests w' = requests w @ replicate k (url, params)"
  using assms
proof (induction k arbitrary: rs attempt w)
  case 0
  then show ?case by (simp add: io_raise_def)
next
  case (Suc k)
  from Suc.prems(3) obtain r rs' where rs: "rs = r # rs'" "length rs' = k"
    by (cases rs) auto
  from Suc.prems(4) obtain now rest where clk: "clock w = now # rest" "k \<le> length rest"
    by (cases "clock w") auto
  have r: "status_code r \<ge> 500" and rep: "replies w = r # (rs' @ others)"
    using Suc.prems(1,2) rs by simp_all
  from server_error_step [OF clk(1) rep r Suc.prems(5), of url params retries k attempt]
  obtain w3 where step: "get_json_loop url params retries (Suc k) attempt w =
                get_json_loop url params retries k (Suc attempt) w3"
    and w3: "clock w3 = rest" "replies w3 = rs' @ others" "slack k w3"
      "requests w3 = requests w @ [(url, params)]"
    by blast
  have "\<exists>w'. get_json_loop url params retries k (Suc attempt) w3 =
            Some (Inl (RuntimeError (Giving_up retries)), w') \<and>
          replies w' = others \<and> requests w' = requests w3 @ replicate k (url, params)"
    by (rule Suc.IH [OF w3(2)]) (use Suc.prems(2) rs clk w3 in simp_all)
  then show ?case using step w3(4) by (simp add: replicate_append_same)
qed

lemma server_errors_then_success:
  assumes "replies w = rs @ ok # others" and "\<forall>r\<in>set rs. status_code r \<ge> 500"
    and "status_code ok < 400" and "json_body ok = Some body"
    and "length rs < k" and "length rs < length (clock w)" and "slack (Suc (length rs)) w"
  shows "\<exists>w'. get_json_loop url params retries k attempt w = Some (Inr body, w') \<and>
          replies w' = others \<and> requests w' = requests w @ replicate (Suc (length rs)) (url, params)"
  using assms
proof (induction rs arbitrary: k attempt w)
  case Nil
  from Nil.prems(5) obtain k' where k: "k = Suc k'" by (cases k) auto
  from Nil.prems(6) obtain now rest where clk: "clock w = now # rest"
    by (cases "clock w") auto
  from Nil.prems(7) have
    "int (length (second_window (rate_limiter w))) < per_second (rate_limiter w)"
    "int (length (two_minute_window (rate_limiter w))) < per_two_minutes (rate_limiter w)"
    by (simp_all add: slack_def)
  from wait_admits [OF clk this] obtain l' where
    w1: "wait w = Some (Inr (), w\<lparr>rate_limiter := l', clock := rest\<rparr>)"
    by blast
  let ?w1 = "w\<lparr>rate_limiter := l', clock := rest\<rparr>"
  let ?w2 = "?w1\<lparr>replies := others, requests := requests ?w1 @ [(url, params)]\<rparr>"
  have w2: "session_get url params ?w1 = Some (Inr ok, ?w2)"
    using Nil.prems(1) by (simp add: session_get_def)
  have "get_json_loop url params retries (Suc k') attempt w = Some (Inr body, ?w2)"
    using get_json_loop_Suc [OF w1 w2, of retries k' attempt] Nil.prems(3,4) by simp
  then show ?case using k by simp
next
  case (Cons r rs)
  from Cons.prems(5) obtain k' where k: "k = Suc k'" "length rs < k'" by (cases k) auto
  from Cons.prems(6) obtain now rest where clk: "clock w = now # rest" "length rs < length rest"
    by (cases "clock w") auto
  have r: "status_code r \<ge> 500" and rep: "replies w = r # (rs @ ok # others)"
    using Cons.prems(1,2) by simp_all
  have sl: "slack (Suc (Suc (length rs))) w" using Cons.prems(7) by simp
  from server_error_step [OF clk(1) rep r sl, of url params retries k' attempt]
  obtain w3 where step: "get_json_loop url params retries (Suc k') attempt w =
                get_json_loop url params retries k' (Suc attempt) w3"
    and w3: "clock w3 = rest" "replies w3 = rs @ ok # others" "slack (Suc (length rs)) w3"
      "requests w3 = requests w @ [(url, params)]"
    by blast
  have "\<exists>w'. get_json_loop url params retries k' (Suc attempt) w3 = Some (Inr body, w') \<and>
          replies w' = others \<and> requests w' = requests w3 @ replicate (Suc (length rs)) (url, params)"
    by (rule Cons.IH [OF w3(2)]) (use Cons.prems(2,3,4) k clk w3 in simp_all)
  then show ?case using step w3(4) k by (simp add: replicate_append_same)
qed

text \<open>
  Claim C7. Let the API object be new (limiter 18 and 95, empty windows), the clock have
  four readings or more, and the next responses be 503, 503, 503 and then 200 with the
  parsed body \<open>body\<close>. Then \<^verbatim>\<open>get_json\<close> with \<^verbatim>\<open>retries=5\<close> returns \<open>body\<close> after four
  requests, and with \<^verbatim>\<open>retries=3\<close> it raises the RuntimeError \<^verbatim>\<open>Giving up ... after 3
  attempts\<close> after three requests.
\<close>

theorem get_json_retry_budget:
  assumes "rate_limiter w = RiotRateLimiter_init 18 95"
    and "replies w = r1 # r2 # r3 # ok # others"
    and "status_code r1 = 503" and "status_code r2 = 503" and "status_code r3 = 503"
    and "status_code ok = 200" and "json_body ok = Some body"
    and "4 \<le> length (clock w)"
  shows "(\<exists>w'. get_json url params 5 w = Some (Inr body, w') \<and>
               requests w' = requests w @ replicate 4 (url, params)) \<and>
         (\<exists>w'. get_json url params 3 w = Some (Inl (RuntimeError (Giving_up 3)), w') \<and>
               requests w' = requests w @ replicate 3 (url, params))"
proof -
  have rs: "\<forall>r\<in>set [r1, r2, r3]. status_code r \<ge> 500"
    using assms(3-5) by simp
  have sl: "slack (Suc (Suc (Suc (Suc 0)))) w" "slack 3 w"
    using assms(1) by (simp_all add: slack_def RiotRateLimiter_init_def)
  have a: "\<exists>w'. get_json_loop url params 5 5 1 w = Some (Inr body, w') \<and>
          replies w' = others \<and> requests w' = requests w @ replicate (Suc (length [r1, r2, r3])) (url, params)"
    by (rule server_errors_then_success [where rs = "[r1, r2, r3]" and ok = ok])
      (use assms rs sl in simp_all)
  have b: "\<exists>w'. get_json_loop url params 3 3 1 w =
            Some (Inl (RuntimeError (Giving_up 3)), w') \<and>
          replies w' = ok # others \<and> requests w' = requests w @ replicate 3 (url, params)"
    by (rule server_errors_exhaust [where rs = "[r1, r2, r3]"])
      (use assms rs sl in simp_all)
  have c: "replicate 4 (url, params) = replicate (Suc (length [r1, r2, r3])) (url, params)"
    by (simp add: eval_nat_numeral)
  show ?thesis using a b unfolding get_json_def c by auto
qed

text \<open>Claim C7, witness: the readings 0, 2, 6 and 14.\<close>

theorem get_json_retry_budget_witness:
  "(\<exists>w'. get_json ''https://example.org/x'' [] 5 flaky_world
           = Some (Inr (JObj [(''puuid'', JStr ''p1'')]), w') \<and>
         requests w' = replicate 4 (''https://example.org/x'', [])) \<and>
   (\<exists>w'. get_json ''https://example.org/x'' [] 3 flaky_world
           = Some (Inl (RuntimeError (Giving_up 3)), w') \<and>
         requests w' = replicate 3 (''https://example.org/x'', []))"
proof -
  have a1: "rate_limiter flaky_world = RiotRateLimiter_init 18 95"
    by (simp add: flaky_world_def bare_world_def)
  have a2: "replies flaky_world = status_response 503 # status_response 503 # status_response 503 #
      ok_response (JObj [(''puuid'', JStr ''p1'')]) # []"
    by (simp add: flaky_world_def)
  have a3: "status_code (status_response 503) = 503" by (simp add: status_response_def)
  have a6: "status_code (ok_response (JObj [(''puuid'', JStr ''p1'')])) = 200"
    by (simp add: ok_response_def)
  have a7: "json_body (ok_response (JObj [(''puuid'', JStr ''p1'')])) = Some (JObj [(''puuid'', JStr ''p1'')])"
    by (simp add: ok_response_def)
  have a8: "4 \<le> length (clock flaky_world)" by (simp add: flaky_world_def)
  have rq: "requests flaky_world = []" by (simp add: flaky_world_def bare_world_def)
  from get_json_retry_budget [OF a1 a2 a3 a3 a3 a6 a7 a8, of "''https://example.org/x''" "[]"] rq
  show ?thesis by simp
qed

subsection \<open>A \<^verbatim>\<open>Retry-After\<close> header that is not a number\<close>

lemma abortsI:
  assumes "\<And>w r w'. m w = Some (r, w') \<Longrightarrow>
     \<exists>c. replies w = c @ replies w' \<and> ((\<exists>x\<in>set c. unparseable_429 x) \<longrightarrow> r = Inl ValueError)"
  shows "aborts m"
  using assms unfolding aborts_def by blast

lemma abortsD:
  assumes "aborts m" and "m w = Some (r, w')"
  obtains c where "replies w = c @ replies w'"
    and "(\<exists>x\<in>set c. unparseable_429 x) \<Longrightarrow> r = Inl ValueError"
  using assms unfolding aborts_def by blast

lemma aborts_pure [intro!]:
  "aborts (io_return x)" "aborts (io_raise e)" "aborts (io_lift v)" "aborts (io_lift_option ov)"
  "aborts (io_get f)" "aborts unmodelled"
  by (auto simp: aborts_def io_defs split: option.splits)

lemma aborts_modify:
  assumes "\<And>w. replies (g w) = replies w"
  shows "aborts (io_modify g)"
  using assms by (auto simp: aborts_def io_defs)

lemma aborts_logger [intro!]: "aborts (io_modify (logger lvl msg))"
  by (rule aborts_modify) (simp add: logger_def)

lemma aborts_write [intro!]:
  "aborts (io_modify (write_text p c))" "aborts (io_modify (ensure_directory p))"
  "aborts (io_modify (write_matchlist p ids))" "aborts (io_modify (RiotAPI_init k))"
  by (rule aborts_modify, simp add: write_text_def ensure_directory_def write_matchlist_def
      RiotAPI_init_def)+

lemma aborts_bind [intro!]:
  assumes "aborts m" and "\<And>x. aborts (f x)"
  shows "aborts (io_bind m f)"
proof (rule abortsI)
  fix w r w'
  assume run: "io_bind m f w = Some (r, w')"
  then obtain r1 w1 where m: "m w = Some (r1, w1)"
    by (auto simp: io_bind_def split: option.splits)
  from abortsD [OF assms(1) m] obtain c1 where c1: "replies w = c1 @ replies w1"
    "(\<exists>x\<in>set c1. unparseable_429 x) \<Longrightarrow> r1 = Inl ValueError" by blast
  show "\<exists>c. replies w = c @ replies w' \<and> ((\<exists>x\<in>set c. unparseable_429 x) \<longrightarrow> r = Inl ValueError)"
  proof (cases r1)
    case (Inl e)
    then have "r = Inl e" "w' = w1" using run m by (simp_all add: io_bind_def)
    then show ?thesis using c1 Inl by auto
  next
    case (Inr x)
    then have f: "f x w1 = Some (r, w')" using run m by (simp add: io_bind_def)
    from abortsD [OF assms(2) f] obtain c2 where c2: "replies w1 = c2 @ replies w'"
      "(\<exists>x\<in>set c2. unparseable_429 x) \<Longrightarrow> r = Inl ValueError" by blast
    have "replies w = (c1 @ c2) @ replies w'" using c1(1) c2(1) by simp
    moreover have "(\<exists>x\<in>set (c1 @ c2). unparseable_429 x) \<longrightarrow> r = Inl ValueError"
      using c1(2) c2(2) Inr by auto
    ultimately show ?thesis by blast
  qed
qed

lemma aborts_except [intro!]:
  assumes "aborts m" and "\<And>e. aborts (h e)"
  shows "aborts (except_RuntimeError m h)"
proof (rule abortsI)
  fix w r w'
  assume run: "except_RuntimeError m h w = Some (r, w')"
  then obtain r1 w1 where m: "m w = Some (r1, w1)"
    by (auto simp: except_RuntimeError_def split: option.splits)
  from abortsD [OF assms(1) m] obtain c1 where c1: "replies w = c1 @ replies w1"
    "(\<exists>x\<in>set c1. unparseable_429 x) \<Longrightarrow> r1 = Inl ValueError" by blast
  show "\<exists>c. replies w = c @ replies w' \<and> ((\<exists>x\<in>set c. unparseable_429 x) \<longrightarrow> r = Inl ValueError)"
  proof (cases "\<exists>e. r1 = Inl (RuntimeError e)")
    case True
    then obtain e where e: "r1 = Inl (RuntimeError e)" ..
    then have f: "h e w1 = Some (r, w')" using run m by (simp add: except_RuntimeError_def)
    from abortsD [OF assms(2) f] obtain c2 where c2: "replies w1 = c2 @ replies w'"
      "(\<exists>x\<in>set c2. unparseable_429 x) \<Longrightarrow> r = Inl ValueError" by blast
    have "replies w = (c1 @ c2) @ replies w'" using c1(1) c2(1) by simp
    moreover have "(\<exists>x\<in>set (c1 @ c2). unparseable_429 x) \<longrightarrow> r = Inl ValueError"
      using c1(2) c2(2) e by auto
    ultimately show ?thesis by blast
  next
    case False
    then have "r = r1" "w' = w1" using run m
      by (auto simp: except_RuntimeError_def split: sum.splits error.splits)
    then show ?thesis using c1 by blast
  qed
qed

lemma aborts_if [intro!]:
  assumes "b \<Longrightarrow> aborts m" and "\<not> b \<Longrightarrow> aborts n"
  shows "aborts (if b then m else n)"
  using assms by simp

lemma aborts_case_option [intro!]:
  assumes "x = None \<Longrightarrow> aborts m" and "\<And>y. x = Some y \<Longrightarrow> aborts (f y)"
  shows "aborts (case x of None \<Rightarrow> m | Some y \<Rightarrow> f y)"
  using assms by (cases x) simp_all

lemma aborts_case_prod [intro!]:
  assumes "\<And>a b. x = (a, b) \<Longrightarrow> aborts (f a b)"
  shows "aborts (case x of (a, b) \<Rightarrow> f a b)"
  using assms by (cases x) simp

lemma aborts_let [intro!]:
  assumes "aborts (f x)"
  shows "aborts (Let x f)"
  using assms by simp

lemma aborts_get_json_loop: "aborts (get_json_loop url params retries k attempt)"
proof (induction k arbitrary: attempt)
  case 0
  show ?case by auto
next
  case (Suc k)
  show ?case
  proof (rule abortsI)
    fix w r w'
    assume run: "get_json_loop url params retries (Suc k) attempt w = Some (r, w')"
    then obtain u w1 where w1: "wait w = Some (u, w1)"
      by (auto simp: io_bind_def split: option.splits)
    then have u: "u = Inr ()" and r1: "replies w1 = replies w"
      using wait_frame by blast+
    from run w1 u obtain x w2 where w2: "session_get url params w1 = Some (Inr x, w2)"
      by (auto simp: io_bind_def session_get_def split: option.splits list.splits)
    then have r2: "replies w1 = x # replies w2"
      using session_get_frame by blast
    note eq = get_json_loop_Suc [OF w1 w2, of retries k attempt]
    have "(\<exists>w3. replies w3 = replies w2 \<and> \<not> unparseable_429 x \<and>
            get_json_loop url params retries k (Suc attempt) w3 = Some (r, w')) \<or>
          (w' = w2 \<and> \<not> unparseable_429 x) \<or>
          (replies w' = replies w2 \<and> r = Inl ValueError)"
    proof (cases "status_code x = 429")
      case True
      show ?thesis
      proof (cases "retry_after_float x")
        case (Inl e)
        then have "e = ValueError"
          by (auto simp: retry_after_float_def split: retry_after.splits)
        then show ?thesis using run True Inl eq by simp
      next
        case (Inr ra)
        then have nb: "\<not> unparseable_429 x"
          by (auto simp: retry_after_float_def unparseable_429_def split: retry_after.splits)
        show ?thesis
        proof (cases "ra + 0.1 < 0")
          case neg: True
          then show ?thesis using run True Inr eq by (auto simp: logger_def)
        next
          case False
          let ?w3 = "(logger DEBUG ''Rate limited. Sleeping %.2fs'' w2)\<lparr>sleeps := sleeps w2 @ [ra + 0.1]\<rparr>"
          have "get_json_loop url params retries k (Suc attempt) ?w3 = Some (r, w')"
            using run True Inr False eq by simp
          moreover have "replies ?w3 = replies w2" by (simp add: logger_def)
          ultimately show ?thesis using nb by blast
        qed
      qed
    next
      case n429: False
      then have nb: "\<not> unparseable_429 x" by (simp add: unparseable_429_def)
      show ?thesis
      proof (cases "status_code x \<ge> 500")
        case True
        let ?w3 = "(logger WARNING ''Server error %s for %s (attempt %s)'' w2)
             \<lparr>sleeps := sleeps w2 @ [min (2 ^ attempt) 10]\<rparr>"
        have "get_json_loop url params retries k (Suc attempt) ?w3 = Some (r, w')"
          using run True n429 eq by simp
        moreover have "replies ?w3 = replies w2" by (simp add: logger_def)
        ultimately show ?thesis using nb by blast
      next
        case False
        then show ?thesis using run n429 eq nb by (auto split: if_splits option.splits)
      qed
    qed
    then consider (retry) w3 where "replies w3 = replies w2" "\<not> unparseable_429 x"
        "get_json_loop url params retries k (Suc attempt) w3 = Some (r, w')"
      | (stop) "w' = w2" "\<not> unparseable_429 x"
      | (abort) "replies w' = replies w2" "r = Inl ValueError"
      by blast
    then show "\<exists>c. replies w = c @ replies w' \<and> ((\<exists>x\<in>set c. unparseable_429 x) \<longrightarrow> r = Inl ValueError)"
    proof cases
      case retry
      from abortsD [OF Suc.IH retry(3)] obtain c3 where c3: "replies w3 = c3 @ replies w'"
        "(\<exists>x\<in>set c3. unparseable_429 x) \<Longrightarrow> r = Inl ValueError" by blast
      have "replies w = (x # c3) @ replies w'" using r1 r2 retry(1) c3(1) by simp
      moreover have "(\<exists>y\<in>set (x # c3). unparseable_429 y) \<longrightarrow> r = Inl ValueError"
        using retry(2) c3(2) by auto
      ultimately show ?thesis by blast
    next
      case stop
      have "replies w = [x] @ replies w'" using r1 r2 stop(1) by simp
      moreover have "(\<exists>y\<in>set [x]. unparseable_429 y) \<longrightarrow> r = Inl ValueError"
        using stop(2) by simp
      ultimately show ?thesis by blast
    next
      case abort
      have "replies w = [x] @ replies w'" using r1 r2 abort(1) by simp
      then show ?thesis using abort(2) by blast
    qed
  qed
qed

lemma aborts_get_json [intro!]: "aborts (get_json url params retries)"
  unfolding get_json_def by (rule aborts_get_json_loop)

lemma aborts_as_str [intro!]: "aborts (as_str j)"
  by (cases j) auto

lemma aborts_as_strs [intro!]: "aborts (as_strs js)"
  by (induction js) auto

lemma aborts_download [intro!]: "aborts (download_match_bundle match_id dir min_d allowed)"
  unfolding download_match_bundle_def by auto

lemma aborts_scan_match_ids [intro!]: "aborts (scan_match_ids a qf ms st)"
proof (induction ms arbitrary: st)
  case Nil
  show ?case by auto
next
  case (Cons m ms)
  show ?case
    unfolding scan_match_ids.simps
    by (intro aborts_bind aborts_as_str aborts_if aborts_except aborts_download aborts_pure
        aborts_logger aborts_case_option aborts_case_prod aborts_let Cons.IH)
qed

lemma aborts_scan_player [intro!]: "aborts (scan_player a bs qf p starts st)"
proof (induction starts arbitrary: st)
  case Nil
  show ?case by auto
next
  case (Cons s starts)
  show ?case
    unfolding scan_player.simps
    by (intro aborts_bind aborts_get_json aborts_if aborts_except aborts_scan_match_ids aborts_pure
        aborts_logger aborts_case_option Cons.IH)
qed

lemma aborts_fetch_puuid [intro!]: "aborts (fetch_puuid sid cache)"
  unfolding fetch_puuid_def by auto

lemma aborts_entry_puuid [intro!]: "aborts (entry_puuid entry st)"
  unfolding entry_puuid_def by auto

lemma aborts_process_entry [intro!]: "aborts (process_entry a bs hw qf entry st)"
  unfolding process_entry_def by auto

lemma aborts_iter_entries:
  assumes "\<And>e s. aborts (body e s)"
  shows "aborts (iter_entries body es st)"
proof (induction es arbitrary: st)
  case Nil
  show ?case by auto
next
  case (Cons e es)
  show ?case
    unfolding iter_entries.simps
    by (intro aborts_bind assms aborts_if aborts_pure Cons.IH)
qed

lemma aborts_iter_pages:
  assumes "\<And>e s. aborts (body e s)"
  shows "aborts (iter_pages body division pages st)"
proof (induction pages arbitrary: st)
  case Nil
  show ?case by auto
next
  case (Cons p pages)
  show ?case
    unfolding iter_pages.simps
    by (intro aborts_bind aborts_get_json aborts_iter_entries assms aborts_if aborts_pure
        aborts_logger Cons.IH)
qed

lemma aborts_iter_divisions:
  assumes "\<And>e s. aborts (body e s)"
  shows "aborts (iter_divisions body max_pages ds st)"
proof (induction ds arbitrary: st)
  case Nil
  show ?case by auto
next
  case (Cons d ds)
  show ?case
    unfolding iter_divisions.simps
    by (intro aborts_bind aborts_iter_pages assms aborts_if aborts_pure Cons.IH)
qed

lemma aborts_load [intro!]: "aborts (load_existing_matchlist p)"
  unfolding load_existing_matchlist_def
  by (auto split: file_content.splits option.splits)

lemma aborts_collect [intro!]: "aborts (collect a key)"
  unfolding collect_def iter_gold_entries_def Let_def
  by (intro aborts_bind aborts_write aborts_load aborts_logger aborts_if aborts_pure
      aborts_iter_divisions aborts_process_entry)

lemma aborts_report [intro!]: "aborts (report a st)"
  unfolding report_def by auto

lemma aborts_main: "aborts (main a)"
  unfolding main_def
  by (auto split: option.splits list.splits)

lemma aborts_result:
  assumes "aborts m" and "m w = Some (r, w')" and "replies w = c @ replies w'"
    and "x \<in> set c" and "unparseable_429 x"
  shows "r = Inl ValueError"
proof -
  from abortsD [OF assms(1,2)] obtain c' where c': "replies w = c' @ replies w'"
    "(\<exists>y\<in>set c'. unparseable_429 y) \<Longrightarrow> r = Inl ValueError" by blast
  from c'(1) assms(3) have "c' = c" by simp
  then show ?thesis using c'(2) assms(4,5) by blast
qed

lemmas main_defs = main_def collect_def report_def process_entry_def entry_puuid_def
  fetch_puuid_def iter_gold_entries_def DIVISIONS_def QUEUE_def TIER_def load_api_key_def
  load_existing_matchlist_def write_matchlist_def download_match_bundle_def
  match_ids_url_def default_args_def RiotAPI_init_def skip_def strip_def is_space_def
  credential_world_def Let_def

lemma get_json_unparseable:
  assumes "clock w = now # rest"
    and "int (length (second_window (rate_limiter w))) < per_second (rate_limiter w)"
    and "int (length (two_minute_window (rate_limiter w))) < per_two_minutes (rate_limiter w)"
    and "replies w = x # others"
    and "status_code x = 429" and "retry_after_header x = Header_unparseable"
    and "0 < retries"
  shows "\<exists>w'. get_json url params retries w = Some (Inl ValueError, w') \<and>
           requests w' = requests w @ [(url, params)] \<and> replies w' = others \<and>
           files w' = files w \<and> dirs w' = dirs w \<and> logs w' = logs w"
proof -
  from wait_admits [OF assms(1-3)] obtain l' where
    w1: "wait w = Some (Inr (), w\<lparr>rate_limiter := l', clock := rest\<rparr>)" by blast
  let ?w1 = "w\<lparr>rate_limiter := l', clock := rest\<rparr>"
  let ?w2 = "?w1\<lparr>replies := others, requests := requests ?w1 @ [(url, params)]\<rparr>"
  have w2: "session_get url params ?w1 = Some (Inr x, ?w2)"
    using assms(4) by (simp add: session_get_def)
  obtain k where k: "nat retries = Suc k" using assms(7) by (cases "nat retries") auto
  have fl: "retry_after_float x = Inl ValueError"
    using assms(6) by (simp add: retry_after_float_def)
  have "get_json_loop url params retries (Suc k) 1 w = Some (Inl ValueError, ?w2)"
    using get_json_loop_Suc [OF w1 w2, of retries k 1] assms(5) fl by simp
  then have "get_json url params retries w = Some (Inl ValueError, ?w2)"
    using k by (simp add: get_json_def)
  moreover have "requests ?w2 = requests w @ [(url, params)]" "replies ?w2 = others"
    "files ?w2 = files w" "dirs ?w2 = dirs w" "logs ?w2 = logs w"
    by simp_all
  ultimately show ?thesis by blast
qed

lemma as_strs_cases:
  "(\<exists>ss. as_strs xs = io_return ss) \<or> as_strs xs = unmodelled"
proof (induction xs)
  case Nil
  have "as_strs [] = io_return []" by simp
  then show ?case by blast
next
  case (Cons x xs)
  show ?case
  proof (cases x)
    case (JStr s)
    from Cons.IH show ?thesis
    proof
      assume "\<exists>ss. as_strs xs = io_return ss"
      then obtain ss where "as_strs xs = io_return ss" ..
      then have "as_strs (x # xs) = io_return (s # ss)"
        using JStr by (simp add: io_bind_def io_return_def fun_eq_iff)
      then show ?thesis by blast
    next
      assume "as_strs xs = unmodelled"
      then have "as_strs (x # xs) = unmodelled"
        using JStr by (simp add: io_bind_def io_return_def unmodelled_def fun_eq_iff)
      then show ?thesis by blast
    qed
  qed (simp_all add: io_bind_def unmodelled_def fun_eq_iff)
qed

lemma as_strs_pure:
  assumes "as_strs xs w = Some (r, w')"
  shows "w' = w \<and> as_strs xs v = Some (r, v)"
  using as_strs_cases [of xs]
proof
  assume "\<exists>ss. as_strs xs = io_return ss"
  then obtain ss where e: "as_strs xs = io_return ss" ..
  with assms have "r = Inr ss" "w' = w" by (simp_all add: io_return_def)
  then show ?thesis using e by (simp add: io_return_def)
next
  assume "as_strs xs = unmodelled"
  with assms show ?thesis by (simp add: unmodelled_def)
qed

lemma load_existing_matchlist_pure:
  assumes "load_existing_matchlist p w = Some (r, w')" and "files v = files w"
  shows "w' = w \<and> load_existing_matchlist p v = Some (r, v)"
proof (cases "files w p")
  case None
  then show ?thesis using assms
    by (auto simp: load_existing_matchlist_def io_bind_def io_get_def io_return_def)
next
  case (Some content)
  show ?thesis
  proof (cases content)
    case Not_json
    then show ?thesis using assms Some
      by (auto simp: load_existing_matchlist_def io_bind_def io_get_def io_raise_def)
  next
    case (Json data)
    show ?thesis
    proof (cases "py_iter data")
      case (Inl e)
      then show ?thesis using assms Some Json
        by (auto simp: load_existing_matchlist_def io_bind_def io_get_def io_lift_def)
    next
      case (Inr xs)
      from assms Some Json Inr obtain r1 w1 where r1: "as_strs xs w = Some (r1, w1)"
        by (auto simp: load_existing_matchlist_def io_bind_def io_get_def io_lift_def
            split: option.splits)
      from as_strs_pure [OF r1, of v] have e: "w1 = w" "as_strs xs v = Some (r1, v)" by simp_all
      show ?thesis using assms Some Json Inr r1 e
        by (auto simp: load_existing_matchlist_def io_bind_def io_get_def io_lift_def
            io_return_def split: sum.splits)
    qed
  qed
qed

lemma main_unparseable:
  assumes "clock w = now # rest" and "replies w = x # others"
    and "status_code x = 429" and "retry_after_header x = Header_unparseable"
    and "load_api_key ''RIOT_API_KEY'' w = Some (k # ks)"
    and "load_existing_matchlist (matchlist a) w = Some (Inr loaded, w)"
    and "0 < max_pages_per_division a"
  shows "\<exists>w'. main a w = Some (Inl ValueError, w') \<and>
           requests w' = requests w @ [(ladder_url ''I'', [(''page'', 1)])] \<and>
           replies w' = others \<and> files w' = files w"
proof -
  define bs where "bs = max 1 (min (matches_per_player a) 100)"
  define w0 where "w0 = RiotAPI_init (k # ks) w"
  define w1 where "w1 = logger INFO ''Starting with %d existing matches'' w0"
  define w2 where "w2 = (if bs < matches_per_player a
             then logger WARNING ''matches-per-player capped at %d due to Riot API limits'' w1
             else w1)"
  have ld: "load_existing_matchlist (matchlist a) w0 = Some (Inr loaded, w0)"
    using load_existing_matchlist_pure [OF assms(6), of w0]
    by (simp add: w0_def RiotAPI_init_def)
  have c2: "clock w2 = now # rest" "replies w2 = x # others"
    "int (length (second_window (rate_limiter w2))) < per_second (rate_limiter w2)"
    "int (length (two_minute_window (rate_limiter w2))) < per_two_minutes (rate_limiter w2)"
    "requests w2 = requests w" "files w2 = files w"
    using assms(1,2)
    by (simp_all add: w2_def w1_def w0_def logger_def RiotAPI_init_def RiotRateLimiter_init_def)
  from get_json_unparseable [OF c2(1,3,4,2) assms(3,4), of 5 "ladder_url ''I''" "[(''page'', 1)]"]
  obtain w' where g: "get_json (ladder_url ''I'') [(''page'', 1)] 5 w2 = Some (Inl ValueError, w')"
    and w': "requests w' = requests w2 @ [(ladder_url ''I'', [(''page'', 1)])]"
      "replies w' = others" "files w' = files w2"
    by auto
  have pg: "py_range 1 (max_pages_per_division a + 1) 1
      = 1 # py_range 2 (max_pages_per_division a + 1) 1"
    using assms(7) by (subst py_range.simps) simp
  have it: "iter_gold_entries (max_pages_per_division a) body st w2 = Some (Inl ValueError, w')"
    for body :: "json \<Rightarrow> run_state \<Rightarrow> (bool \<times> run_state) io" and st
    using g unfolding iter_gold_entries_def DIVISIONS_def
    by (simp add: pg io_bind_def ladder_url_def)
  have "collect a (k # ks) w = Some (Inl ValueError, w')"
  proof (cases "bs < matches_per_player a")
    case True
    then have e: "w2 = logger WARNING ''matches-per-player capped at %d due to Riot API limits''
        (logger INFO ''Starting with %d existing matches'' (RiotAPI_init (k # ks) w))"
      by (simp add: w2_def w1_def w0_def)
    show ?thesis
      unfolding collect_def Let_def bs_def [symmetric]
      using True ld it [unfolded e]
      by (simp only: io_bind_def io_modify_def w0_def if_True option.case prod.case sum.case)
  next
    case False
    then have e: "w2 = logger INFO ''Starting with %d existing matches'' (RiotAPI_init (k # ks) w)"
      by (simp add: w2_def w1_def w0_def)
    show ?thesis
      unfolding collect_def Let_def bs_def [symmetric]
      using False ld it [unfolded e]
      by (simp only: io_bind_def io_modify_def io_return_def w0_def if_False option.case
          prod.case sum.case)
  qed
  then have "main a w = Some (Inl ValueError, w')"
    using assms(5) by (simp add: main_def io_bind_def io_get_def)
  then show ?thesis using w' c2(5,6) by auto
qed

text \<open>
  Claim C10. Let the limiter have room, the clock have a reading, and the next response be
  a 429 whose \<^verbatim>\<open>Retry-After\<close> header is not parseable as a float. Then \<^verbatim>\<open>get_json\<close>
  returns by raising ValueError, not RuntimeError, after that one request. The handlers of
  \<^verbatim>\<open>main\<close> catch RuntimeError only: the download of a bundle that is not on disk, the loop
  over a batch whose first id is new, the loop over the batches of a player, and \<^verbatim>\<open>main\<close>
  itself at its first request all end with the same ValueError, with no skip counted and
  nothing written. Wherever else in a run of \<^verbatim>\<open>main\<close> such a response is consumed, the run
  ends with ValueError as well.
\<close>

theorem unparseable_retry_after_aborts_run:
  assumes "clock w = now # rest"
    and "int (length (second_window (rate_limiter w))) < per_second (rate_limiter w)"
    and "int (length (two_minute_window (rate_limiter w))) < per_two_minutes (rate_limiter w)"
    and "replies w = x # others"
    and "status_code x = 429" and "retry_after_header x = Header_unparseable"
  shows
    "(0 < retries \<longrightarrow>
        (\<exists>w'. get_json url params retries w = Some (Inl ValueError, w') \<and>
              requests w' = requests w @ [(url, params)] \<and> replies w' = others)) \<and>
     (\<not> (exists (match_path dir m) w \<and> exists (timeline_path dir m) w) \<longrightarrow>
        (\<exists>w'. download_match_bundle m dir min_d allowed w = Some (Inl ValueError, w') \<and>
              requests w' = requests w @ [(match_url m, [])] \<and> files w' = files w)) \<and>
     (m \<notin> known_ids st \<and>
      \<not> (exists (match_path (raw_dir a) m) w \<and> exists (timeline_path (raw_dir a) m) w) \<longrightarrow>
        (\<exists>w'. scan_match_ids a qf (JStr m # ms) st w = Some (Inl ValueError, w') \<and>
              requests w' = requests w @ [(match_url m, [])] \<and> files w' = files w)) \<and>
     (\<exists>w'. scan_player a bs qf p (start # starts) st w = Some (Inl ValueError, w') \<and>
           requests w' = requests w @ [(match_ids_url p, [(''start'', start), (''count'', bs)])] \<and>
           files w' = files w) \<and>
     (load_api_key ''RIOT_API_KEY'' w = Some (k # ks) \<and>
      load_existing_matchlist (matchlist a) w = Some (Inr loaded, w) \<and>
      0 < max_pages_per_division a \<longrightarrow>
        (\<exists>w'. main a w = Some (Inl ValueError, w') \<and>
              requests w' = requests w @ [(ladder_url ''I'', [(''page'', 1)])] \<and>
              files w' = files w)) \<and>
     (\<forall>v c res v'. replies v = c @ replies v' \<and> x \<in> set c \<and> main a v = Some (res, v')
        \<longrightarrow> res = Inl ValueError)"
proof -
  note g = get_json_unparseable [OF assms]
  have 1: "0 < retries \<longrightarrow>
        (\<exists>w'. get_json url params retries w = Some (Inl ValueError, w') \<and>
              requests w' = requests w @ [(url, params)] \<and> replies w' = others)"
    using g [of retries url params] by blast
  have dl: "\<exists>w'. download_match_bundle m d md al w = Some (Inl ValueError, w') \<and>
              requests w' = requests w @ [(match_url m, [])] \<and> files w' = files w"
    if "\<not> (exists (match_path d m) w \<and> exists (timeline_path d m) w)" for d md al
  proof -
    have nb: "(exists (match_path d m) w \<and> exists (timeline_path d m) w) = False"
      using that by blast
    from g [of 5 "match_url m" "[]"] obtain w' where
      "get_json (match_url m) [] 5 w = Some (Inl ValueError, w')"
      "requests w' = requests w @ [(match_url m, [])]" "files w' = files w" by auto
    then show ?thesis
      unfolding download_match_bundle_def
      by (simp add: nb io_bind_def io_get_def)
  qed
  have 2: "\<not> (exists (match_path dir m) w \<and> exists (timeline_path dir m) w) \<longrightarrow>
        (\<exists>w'. download_match_bundle m dir min_d allowed w = Some (Inl ValueError, w') \<and>
              requests w' = requests w @ [(match_url m, [])] \<and> files w' = files w)"
    using dl by blast
  have 3: "m \<notin> known_ids st \<and>
      \<not> (exists (match_path (raw_dir a) m) w \<and> exists (timeline_path (raw_dir a) m) w) \<longrightarrow>
        (\<exists>w'. scan_match_ids a qf (JStr m # ms) st w = Some (Inl ValueError, w') \<and>
              requests w' = requests w @ [(match_url m, [])] \<and> files w' = files w)"
  proof
    assume h: "m \<notin> known_ids st \<and>
      \<not> (exists (match_path (raw_dir a) m) w \<and> exists (timeline_path (raw_dir a) m) w)"
    from dl [of "raw_dir a" "min_duration a" qf] h obtain w' where
      d: "download_match_bundle m (raw_dir a) (min_duration a) qf w = Some (Inl ValueError, w')"
      and f: "requests w' = requests w @ [(match_url m, [])]" "files w' = files w" by blast
    have "scan_match_ids a qf (JStr m # ms) st w = Some (Inl ValueError, w')"
      using h d by (simp add: io_bind_def io_return_def except_RuntimeError_def)
    then show "\<exists>w'. scan_match_ids a qf (JStr m # ms) st w = Some (Inl ValueError, w') \<and>
              requests w' = requests w @ [(match_url m, [])] \<and> files w' = files w"
      using f by blast
  qed
  have 4: "\<exists>w'. scan_player a bs qf p (start # starts) st w = Some (Inl ValueError, w') \<and>
           requests w' = requests w @ [(match_ids_url p, [(''start'', start), (''count'', bs)])] \<and>
           files w' = files w"
  proof -
    from g [of 5 "match_ids_url p" "[(''start'', start), (''count'', bs)]"] obtain w' where
      "get_json (match_ids_url p) [(''start'', start), (''count'', bs)] 5 w = Some (Inl ValueError, w')"
      "requests w' = requests w @ [(match_ids_url p, [(''start'', start), (''count'', bs)])]"
      "files w' = files w" by auto
    then show ?thesis
      by (simp add: io_bind_def io_return_def except_RuntimeError_def)
  qed
  have 5: "load_api_key ''RIOT_API_KEY'' w = Some (k # ks) \<and>
      load_existing_matchlist (matchlist a) w = Some (Inr loaded, w) \<and>
      0 < max_pages_per_division a \<longrightarrow>
        (\<exists>w'. main a w = Some (Inl ValueError, w') \<and>
              requests w' = requests w @ [(ladder_url ''I'', [(''page'', 1)])] \<and>
              files w' = files w)"
    using main_unparseable [OF assms(1,4,5,6), of k ks a loaded] by blast
  have bad: "unparseable_429 x"
    using assms(5,6) by (simp add: unparseable_429_def)
  have 6: "\<forall>v c res v'. replies v = c @ replies v' \<and> x \<in> set c \<and> main a v = Some (res, v')
        \<longrightarrow> res = Inl ValueError"
    using aborts_result [OF aborts_main _ _ _ bad] by blast
  show ?thesis using 1 2 3 4 5 6 by (intro conjI)
qed

text \<open>Claim C10, witness: the 429 as the first response, for each of the calls; and a run
  of \<^verbatim>\<open>main\<close> in which it answers the third request, for the detail of a match.\<close>

theorem unparseable_retry_after_aborts_run_witness:
  "(\<exists>w'. get_json (match_url ''EUN1_1'') [] 5 unparseable_first_world = Some (Inl ValueError, w') \<and>
         requests w' = [(match_url ''EUN1_1'', [])]) \<and>
   (\<exists>w'. download_match_bundle ''EUN1_1'' ''data/raw'' 900 (Some 420) unparseable_first_world
           = Some (Inl ValueError, w') \<and> files w' = files unparseable_first_world) \<and>
   (\<exists>w'. scan_match_ids default_args (Some 420) [JStr ''EUN1_1''] two_known unparseable_first_world
           = Some (Inl ValueError, w') \<and> requests w' = [(match_url ''EUN1_1'', [])]) \<and>
   (\<exists>w'. scan_player default_args 50 (Some 420) ''p1'' [0, 50] two_known unparseable_first_world
           = Some (Inl ValueError, w') \<and>
         requests w' = [(match_ids_url ''p1'', [(''start'', 0), (''count'', 50)])]) \<and>
   (\<exists>w'. main default_args unparseable_first_world = Some (Inl ValueError, w') \<and>
         requests w' = [(ladder_url ''I'', [(''page'', 1)])]) \<and>
   (\<exists>w'. main default_args rate_limited_world = Some (Inl ValueError, w') \<and>
         requests w' = [(ladder_url ''I'', [(''page'', 1)]),
                        (match_ids_url ''p1'', [(''start'', 0), (''count'', 50)]),
                        (match_url ''EUN1_1'', [])])"
proof -
  let ?x = "\<lparr>status_code = 429, retry_after_header = Header_unparseable, json_body = None\<rparr>"
  let ?w = unparseable_first_world
  have h1: "clock ?w = 0 # []"
    by (simp add: unparseable_first_world_def)
  have h2: "int (length (second_window (rate_limiter ?w))) < per_second (rate_limiter ?w)"
    and h3: "int (length (two_minute_window (rate_limiter ?w))) < per_two_minutes (rate_limiter ?w)"
    by (simp_all add: unparseable_first_world_def credential_world_def bare_world_def
        RiotRateLimiter_init_def)
  have h4: "replies ?w = ?x # []"
    by (simp add: unparseable_first_world_def)
  have h5: "status_code ?x = 429" and h6: "retry_after_header ?x = Header_unparseable"
    by simp_all
  have rq: "requests ?w = []"
    by (simp add: unparseable_first_world_def credential_world_def bare_world_def)
  have nc: "\<not> (exists (match_path ''data/raw'' ''EUN1_1'') ?w \<and>
              exists (timeline_path ''data/raw'' ''EUN1_1'') ?w)"
    by (simp add: exists_def unparseable_first_world_def credential_world_def bare_world_def)
  have nk: "''EUN1_1'' \<notin> known_ids two_known \<and>
      \<not> (exists (match_path (raw_dir default_args) ''EUN1_1'') ?w \<and>
         exists (timeline_path (raw_dir default_args) ''EUN1_1'') ?w)"
    by (simp add: two_known_def exists_def unparseable_first_world_def credential_world_def
        bare_world_def)
  have key: "load_api_key ''RIOT_API_KEY'' ?w = Some (CHR ''R'' # ''GAPI-key'')"
    by (simp add: load_api_key_def unparseable_first_world_def credential_world_def
        strip_def is_space_def)
  have ld: "load_existing_matchlist (matchlist default_args) ?w = Some (Inr ([], {}), ?w)"
    by (simp add: load_existing_matchlist_def io_bind_def io_get_def io_return_def
        default_args_def unparseable_first_world_def credential_world_def bare_world_def)
  have pages: "0 < max_pages_per_division default_args"
    by (simp add: default_args_def)
  note t = unparseable_retry_after_aborts_run [OF h1 h2 h3 h4 h5 h6,
      where retries = 5 and url = "match_url ''EUN1_1''" and params = "[]"
        and dir = "''data/raw''" and m = "''EUN1_1''" and min_d = 900 and allowed = "Some 420"
        and st = two_known and a = default_args and qf = "Some 420" and ms = "[]"
        and bs = 50 and p = "''p1''" and start = 0 and starts = "[50]"
        and k = "CHR ''R''" and ks = "''GAPI-key''" and loaded = "([], {})"]
  have c1: "\<exists>w'. get_json (match_url ''EUN1_1'') [] 5 ?w = Some (Inl ValueError, w') \<and>
         requests w' = [(match_url ''EUN1_1'', [])]"
    using t [THEN conjunct1] rq by auto
  have c2: "\<exists>w'. download_match_bundle ''EUN1_1'' ''data/raw'' 900 (Some 420) ?w
           = Some (Inl ValueError, w') \<and> files w' = files ?w"
    using t [THEN conjunct2, THEN conjunct1, THEN mp, OF nc] by auto
  have c3: "\<exists>w'. scan_match_ids default_args (Some 420) [JStr ''EUN1_1''] two_known ?w
           = Some (Inl ValueError, w') \<and> requests w' = [(match_url ''EUN1_1'', [])]"
    using t [THEN conjunct2, THEN conjunct2, THEN conjunct1, THEN mp, OF nk] rq by auto
  have c4: "\<exists>w'. scan_player default_args 50 (Some 420) ''p1'' [0, 50] two_known ?w
           = Some (Inl ValueError, w') \<and>
         requests w' = [(match_ids_url ''p1'', [(''start'', 0), (''count'', 50)])]"
    using t [THEN conjunct2, THEN conjunct2, THEN conjunct2, THEN conjunct1] rq by auto
  have c5: "\<exists>w'. main default_args ?w = Some (Inl ValueError, w') \<and>
         requests w' = [(ladder_url ''I'', [(''page'', 1)])]"
    using t [THEN conjunct2, THEN conjunct2, THEN conjunct2, THEN conjunct2, THEN conjunct1,
        THEN mp, OF conjI [OF key conjI [OF ld pages]]] rq by auto
  have "\<exists>r v'. main default_args rate_limited_world = Some (r, v') \<and> replies v' = [] \<and>
         requests v' = [(ladder_url ''I'', [(''page'', 1)]),
                        (match_ids_url ''p1'', [(''start'', 0), (''count'', 50)]),
                        (match_url ''EUN1_1'', [])]"
    by (simp add: rate_limited_world_def main_defs run_defs ladder_url_def eval_nat_numeral
        py_range.simps)
  then obtain r v' where run: "main default_args rate_limited_world = Some (r, v')"
    and e: "replies v' = []"
    and q: "requests v' = [(ladder_url ''I'', [(''page'', 1)]),
                        (match_ids_url ''p1'', [(''start'', 0), (''count'', 50)]),
                        (match_url ''EUN1_1'', [])]" by blast
  have g: "replies rate_limited_world = replies rate_limited_world @ replies v' \<and>
      ?x \<in> set (replies rate_limited_world) \<and> main default_args rate_limited_world = Some (r, v')"
    using e run by (simp add: rate_limited_world_def)
  have "r = Inl ValueError"
    by (rule t [THEN conjunct2, THEN conjunct2, THEN conjunct2, THEN conjunct2, THEN conjunct2,
          THEN spec, THEN spec, THEN spec, THEN spec, THEN mp, OF g])
  then have c6: "\<exists>w'. main default_args rate_limited_world = Some (Inl ValueError, w') \<and>
         requests w' = [(ladder_url ''I'', [(''page'', 1)]),
                        (match_ids_url ''p1'', [(''start'', 0), (''count'', 50)]),
                        (match_url ''EUN1_1'', [])]"
    using run q by auto
  show ?thesis by (intro conjI c1 c2 c3 c4 c5 c6)
qed

subsection \<open>Exit status\<close>

text \<open>
  Claim C8. When no credential can be loaded (\<^verbatim>\<open>load_api_key\<close> gives \<^verbatim>\<open>None\<close> or the empty
  string), \<^verbatim>\<open>main\<close> returns 1 and has only logged an error: no request was sent and no
  response consumed. With a credential, every run of \<^verbatim>\<open>main\<close> that returns, returns 0.
  The report at the end of the run returns 0 from every state, and when the count of known
  matches is below the target its last act is a warning.
\<close>

theorem exit_status:
  "(load_api_key ''RIOT_API_KEY'' w = None \<or> load_api_key ''RIOT_API_KEY'' w = Some [] \<longrightarrow>
      (\<exists>v. main a w = Some (Inr 1, v) \<and> requests v = requests w \<and> replies v = replies w \<and>
           logs v = logs w @ [(ERROR, ''RIOT_API_KEY not found. Set it in the environment or .env file.'')])) \<and>
   (load_api_key ''RIOT_API_KEY'' w = Some (k # ks) \<and> main a w = Some (Inr rc, w') \<longrightarrow> rc = 0) \<and>
   (\<exists>v. report a st w = Some (Inr 0, v) \<and>
        (int (card (known_ids st)) < target_match_count a \<longrightarrow>
           last (logs v) = (WARNING,
             ''Only gathered %d matches (target %d). Increase max pages or matches per player and rerun.'')))"
proof -
  have a: "\<exists>v. main a w = Some (Inr 1, v) \<and> requests v = requests w \<and> replies v = replies w \<and>
           logs v = logs w @ [(ERROR, ''RIOT_API_KEY not found. Set it in the environment or .env file.'')]"
    if "load_api_key ''RIOT_API_KEY'' w = None \<or> load_api_key ''RIOT_API_KEY'' w = Some []"
    using that by (auto simp: main_def io_defs logger_def)
  have rep: "\<exists>v. report a s u = Some (Inr 0, v) \<and>
        (int (card (known_ids s)) < target_match_count a \<longrightarrow>
           last (logs v) = (WARNING,
             ''Only gathered %d matches (target %d). Increase max pages or matches per player and rerun.''))"
    for s u
    by (simp add: report_def io_defs logger_def)
  have b: "rc = 0"
    if "load_api_key ''RIOT_API_KEY'' w = Some (k # ks)" and "main a w = Some (Inr rc, w')"
  proof -
    from that have "io_bind (collect a (k # ks)) (report a) w = Some (Inr rc, w')"
      by (simp add: main_def io_bind_def io_get_def)
    then obtain s u where "report a s u = Some (Inr rc, w')"
      by (auto simp: io_bind_def split: option.splits sum.splits)
    with rep [of s u] show ?thesis by auto
  qed
  show ?thesis using a b rep by blast
qed

text \<open>Claim C8, witness: a world without credential, and a run that ends with 3 matches
  of the 1000 asked for.\<close>

theorem exit_status_witness:
  "load_api_key ''RIOT_API_KEY'' bare_world = None \<and>
   (\<exists>v. main default_args bare_world = Some (Inr 1, v) \<and> requests v = []) \<and>
   load_api_key ''RIOT_API_KEY'' merge_world = Some ''RGAPI-key'' \<and>
   (\<exists>v. main default_args merge_world = Some (Inr 0, v) \<and> length (requests v) = 9)"
proof -
  have a1: "load_api_key ''RIOT_API_KEY'' bare_world = None"
    by (simp add: load_api_key_def bare_world_def)
  have a2: "load_api_key ''RIOT_API_KEY'' merge_world = Some (CHR ''R'' # ''GAPI-key'')"
    by (simp add: merge_world_def main_defs bare_world_def)
  have "\<exists>rc v. main default_args merge_world = Some (Inr rc, v) \<and> length (requests v) = 9"
    by (simp add: merge_world_def main_defs run_defs eval_nat_numeral py_range.simps)
  then obtain rc v where run: "main default_args merge_world = Some (Inr rc, v)"
    and n: "length (requests v) = 9" by blast
  have rq: "requests bare_world = []" by (simp add: bare_world_def)
  from exit_status [where w = bare_world and a = default_args] a1 rq
  have p1: "\<exists>v. main default_args bare_world = Some (Inr 1, v) \<and> requests v = []"
    by auto
  from exit_status [where w = merge_world and k = "CHR ''R''" and ks = "''GAPI-key''"
      and a = default_args and rc = rc and w' = v] a2 run
  have "rc = 0" by blast
  then show ?thesis using a1 a2 p1 run n by auto
qed

subsection \<open>The match list\<close>

lemma returnsD: "returns m Q \<Longrightarrow> m w = Some (Inr x, w') \<Longrightarrow> Q x"
  unfolding returns_def by blast

lemma returns_return: "Q x \<Longrightarrow> returns (io_return x) Q"
  by (simp add: returns_def io_return_def)

lemma returns_none: "returns (io_raise e) Q" "returns unmodelled Q"
  by (simp_all add: returns_def io_raise_def unmodelled_def)

lemma returns_bind:
  assumes "returns m P" and "\<And>x. P x \<Longrightarrow> returns (f x) Q"
  shows "returns (io_bind m f) Q"
  using assms unfolding returns_def io_bind_def
  by (fastforce split: option.splits sum.splits)

lemma returns_bind_any:
  assumes "\<And>x. returns (f x) Q"
  shows "returns (io_bind m f) Q"
  using assms unfolding returns_def io_bind_def
  by (fastforce split: option.splits sum.splits)

lemma returns_except:
  assumes "returns m Q" and "\<And>e. returns (h e) Q"
  shows "returns (except_RuntimeError m h) Q"
  using assms unfolding returns_def except_RuntimeError_def
  by (fastforce split: option.splits sum.splits error.splits)

lemma returns_if:
  assumes "b \<Longrightarrow> returns m Q" and "\<not> b \<Longrightarrow> returns n Q"
  shows "returns (if b then m else n) Q"
  using assms by simp

lemma returns_case_option:
  assumes "x = None \<Longrightarrow> returns m Q" and "\<And>y. x = Some y \<Longrightarrow> returns (f y) Q"
  shows "returns (case x of None \<Rightarrow> m | Some y \<Rightarrow> f y) Q"
  using assms by (cases x) simp_all

lemma returns_case_prod:
  assumes "\<And>a b. x = (a, b) \<Longrightarrow> returns (f a b) Q"
  shows "returns (case x of (a, b) \<Rightarrow> f a b) Q"
  using assms by (cases x) simp

lemma merged_refl: "merged st st"
  by (simp add: merged_def)

lemma merged_trans: "merged st st1 \<Longrightarrow> merged st1 st2 \<Longrightarrow> merged st st2"
  by (auto simp: merged_def)

lemma merged_skip: "merged st (skip reason st)"
  by (simp add: merged_def skip_def state_ok_def)

lemma merged_cache: "merged st (st\<lparr>puuid_cache := c\<rparr>)"
  by (simp add: merged_def state_ok_def)

lemma merged_accept:
  assumes "match_id \<notin> known_ids st"
  shows "merged st (st\<lparr>known_ids := insert match_id (known_ids st),
                        ordered_ids := ordered_ids st @ [match_id],
                        new_matches := new_matches st @ [match_id]\<rparr>)"
  using assms by (auto simp: merged_def state_ok_def)

lemma returns_weaken:
  assumes "returns m (merged st1)" and "merged st st1"
  shows "returns m (merged st)"
  using assms unfolding returns_def by (blast intro: merged_trans)

lemma returns_scan_match_ids: "returns (scan_match_ids a qf ms st) (merged st)"
proof (induction ms arbitrary: st)
  case Nil
  show ?case by (simp add: returns_return merged_refl)
next
  case (Cons m ms)
  show ?case
    unfolding scan_match_ids.simps Let_def
  proof (intro returns_bind_any returns_if returns_case_option returns_case_prod)
    fix match_id
    show "returns (scan_match_ids a qf ms (skip ''duplicate_id'' st)) (merged st)"
      by (rule returns_weaken [OF Cons.IH merged_skip])
    show "returns (scan_match_ids a qf ms (skip ''download_error'' st)) (merged st)"
      by (rule returns_weaken [OF Cons.IH merged_skip])
    show "returns (scan_match_ids a qf ms (skip (''skip_'' @ reason) st)) (merged st)" for reason
      by (rule returns_weaken [OF Cons.IH merged_skip])
    assume new: "match_id \<notin> known_ids st"
    let ?st1 = "st\<lparr>known_ids := insert match_id (known_ids st),
                        ordered_ids := ordered_ids st @ [match_id],
                        new_matches := new_matches st @ [match_id]\<rparr>"
    show "returns (io_return ?st1) (merged st)"
      by (rule returns_return) (rule merged_accept [OF new])
    show "returns (scan_match_ids a qf ms ?st1) (merged st)"
      by (rule returns_weaken [OF Cons.IH merged_accept [OF new]])
  qed
qed

lemma returns_flag_step:
  fixes r :: "bool \<times> run_state"
  assumes "merged st (snd r)" and "returns k (\<lambda>x. merged (snd r) (snd x))"
  shows "returns (if fst r then io_return (True, snd r) else k) (\<lambda>x. merged st (snd x))"
proof (cases "fst r")
  case True
  then show ?thesis using assms(1) by (simp add: returns_return)
next
  case False
  have "returns k (\<lambda>x. merged st (snd x))"
    unfolding returns_def
  proof (intro allI impI)
    fix w x w' assume "k w = Some (Inr x, w')"
    from returnsD [OF assms(2) this] assms(1) show "merged st (snd x)"
      by (rule merged_trans [rotated])
  qed
  then show ?thesis using False by simp
qed

lemma returns_target_step:
  assumes "merged st st1" and "returns k (merged st1)"
  shows "returns (if c then io_return st1 else k) (merged st)"
  using assms(1) returns_weaken [OF assms(2,1)] by (simp add: returns_return)

lemma returns_scan_player: "returns (scan_player a bs qf p starts st) (merged st)"
proof (induction starts arbitrary: st)
  case Nil
  show ?case by (simp add: returns_return merged_refl)
next
  case (Cons s starts)
  show ?case
    unfolding scan_player.simps
    apply (rule returns_bind_any)
    apply (rule returns_case_option)
     apply (rule returns_return, rule merged_skip)
    apply (rule returns_if)
     apply (rule returns_return, rule merged_refl)
    apply (rule returns_bind_any)
    apply (rule returns_bind [OF returns_scan_match_ids])
    apply (erule returns_target_step)
    apply (rule Cons.IH)
    done
qed

lemma returns_entry_puuid:
  "returns (entry_puuid entry st) (\<lambda>found. \<forall>p st1. found = Some (p, st1) \<longrightarrow> merged st st1)"
  unfolding entry_puuid_def
  by (intro returns_bind_any returns_if returns_return) (simp_all add: merged_refl merged_cache)

lemma returns_scan_flag:
  assumes "merged st st1"
  shows "returns (io_bind (scan_player a bs qf p starts st1) (\<lambda>st2. io_return (flag st2, st2)))
           (\<lambda>r. merged st (snd r))"
proof (rule returns_bind [OF returns_scan_player])
  fix st2 assume "merged st1 st2"
  then have "merged st st2" using assms by (blast intro: merged_trans)
  then show "returns (io_return (flag st2, st2)) (\<lambda>r. merged st (snd r))"
    by (simp add: returns_return)
qed

lemma returns_process_entry:
  "returns (process_entry a bs hw qf entry st) (\<lambda>r. merged st (snd r))"
  unfolding process_entry_def
  apply (rule returns_bind [OF returns_entry_puuid])
  apply (intro returns_case_option returns_case_prod returns_if)
    apply (simp add: returns_return merged_refl)
   apply (rule returns_bind_any)
   apply (simp add: returns_return)
  apply (rule returns_bind_any)
  apply (rule returns_scan_flag)
  apply simp
  done

lemma returns_iter_entries:
  assumes "\<And>e s. returns (body e s) (\<lambda>r. merged s (snd r))"
  shows "returns (iter_entries body es st) (\<lambda>r. merged st (snd r))"
proof (induction es arbitrary: st)
  case Nil
  show ?case by (simp add: returns_return merged_refl)
next
  case (Cons e es)
  show ?case
    unfolding iter_entries.simps
    apply (rule returns_bind [OF assms])
    apply (erule returns_flag_step)
    apply (rule Cons.IH)
    done
qed

lemma returns_iter_pages:
  assumes "\<And>e s. returns (body e s) (\<lambda>r. merged s (snd r))"
  shows "returns (iter_pages body division pages st) (\<lambda>r. merged st (snd r))"
proof (induction pages arbitrary: st)
  case Nil
  show ?case by (simp add: returns_return merged_refl)
next
  case (Cons p pages)
  show ?case
    unfolding iter_pages.simps
    apply (rule returns_bind_any)
    apply (rule returns_if)
     apply (rule returns_bind_any)
     apply (simp add: returns_return merged_refl)
    apply (rule returns_bind_any)
    apply (rule returns_bind [OF returns_iter_entries [OF assms]])
    apply (erule returns_flag_step)
    apply (rule Cons.IH)
    done
qed

lemma returns_iter_divisions:
  assumes "\<And>e s. returns (body e s) (\<lambda>r. merged s (snd r))"
  shows "returns (iter_divisions body max_pages ds st) (\<lambda>r. merged st (snd r))"
proof (induction ds arbitrary: st)
  case Nil
  show ?case by (simp add: returns_return merged_refl)
next
  case (Cons d ds)
  show ?case
    unfolding iter_divisions.simps
    apply (rule returns_bind [OF returns_iter_pages [OF assms]])
    apply (erule returns_flag_step)
    apply (rule Cons.IH)
    done
qed

lemma returns_iter_gold_entries:
  assumes "\<And>e s. returns (body e s) (\<lambda>r. merged s (snd r))"
  shows "returns (iter_gold_entries max_pages body st) (merged st)"
  unfolding iter_gold_entries_def
  by (rule returns_bind [OF returns_iter_divisions [OF assms]]) (simp add: returns_return)

lemma as_strs_map_JStr: "as_strs (map JStr ids) = io_return ids"
  by (induction ids) (simp_all add: io_bind_def io_return_def fun_eq_iff)

lemma collect_merged:
  assumes "files w (matchlist a) = Some (Json (JArr (map JStr old)))"
    and "collect a key w = Some (Inr st, w')"
  shows "(\<exists>new. ordered_ids st = old @ new) \<and>
         (distinct old \<longrightarrow> known_ids st = set (ordered_ids st) \<and> distinct (ordered_ids st))"
proof -
  let ?st0 = "\<lparr>ordered_ids = old, known_ids = set old, puuid_cache = (\<lambda>_. None),
           new_matches = [], skip_stats = []\<rparr>"
  let ?bs = "max 1 (min (matches_per_player a) 100)"
  let ?m = "iter_gold_entries (max_pages_per_division a)
          (process_entry a ?bs (max ?bs (history_window a))
             (if queue_id a < 0 then None else Some (queue_id a))) ?st0"
  have ld: "load_existing_matchlist (matchlist a) (RiotAPI_init key w)
      = Some (Inr (old, set old), RiotAPI_init key w)"
    using assms(1)
    by (simp add: load_existing_matchlist_def RiotAPI_init_def as_strs_map_JStr io_defs)
  from assms(2) obtain v where "?m v = Some (Inr st, w')"
    unfolding collect_def Let_def
    by (simp add: ld io_bind_def io_modify_def io_return_def split: if_splits)
  moreover have "returns ?m (merged ?st0)"
    by (rule returns_iter_gold_entries) (rule returns_process_entry)
  ultimately have "merged ?st0 st" by (rule returnsD [rotated])
  then show ?thesis by (simp add: merged_def state_ok_def)
qed

lemma report_writes:
  assumes "new_matches st \<noteq> []" and "report a st w = Some (res, w5)"
  shows "files w5 (matchlist a) = Some (Json (JArr (map JStr (ordered_ids st))))"
proof -
  let ?w1 = "logger INFO ''Updated matchlist with %d new matches (total %d).''
               (write_matchlist (matchlist a) (ordered_ids st) w)"
  have f1: "files ?w1 (matchlist a) = Some (Json (JArr (map JStr (ordered_ids st))))"
    by (simp add: logger_def write_matchlist_def write_text_def)
  let ?w2 = "if skip_stats st \<noteq> [] then logger INFO ''Skip summary: %s'' ?w1 else ?w1"
  have f2: "files ?w2 = files ?w1" by (simp add: logger_def)
  let ?w3 = "if int (card (known_ids st)) < target_match_count a
             then logger WARNING
               ''Only gathered %d matches (target %d). Increase max pages or matches per player and rerun.'' ?w2
             else ?w2"
  have f3: "files ?w3 = files ?w2" by (simp add: logger_def)
  have "report a st w = Some (Inr 0, ?w3)"
    using assms(1) by (simp add: report_def io_bind_def io_modify_def io_return_def)
  then have "w5 = ?w3" using assms(2) by simp
  then show ?thesis using f1 f2 f3 by simp
qed

text \<open>
  Claim C6. With the match list \<^verbatim>\<open>["a", "b"]\<close> on disk and a run whose scan finds
  \<^verbatim>\<open>["b", "c"]\<close> and accepts \<^verbatim>\<open>c\<close>, \<^verbatim>\<open>main\<close> returns 0 and the match list on disk is
  then exactly \<^verbatim>\<open>["a", "b", "c"]\<close>. Throughout a run: from a state in which \<^verbatim>\<open>known_ids\<close>
  is the set of \<^verbatim>\<open>ordered_ids\<close> and \<^verbatim>\<open>ordered_ids\<close> has no duplicates, each loop of
  \<^verbatim>\<open>main\<close> (over the ids of a batch, over the batches of a player, and the body run for a
  ladder entry) ends in such a state again, with the former list as the first part of the
  new one. The walk as a whole, started from a list without duplicates on disk, ends in
  such a state, and the report writes the ordered list in full when a match was added.
\<close>

theorem matchlist_merge:
  "map_option (\<lambda>r. (fst r, files (snd r) ''matchlist.json'')) (main default_args merge_world)
     = Some (Inr 0, Some (Json (JArr [JStr ''a'', JStr ''b'', JStr ''c'']))) \<and>
   (known_ids st = set (ordered_ids st) \<and> distinct (ordered_ids st) \<longrightarrow>
      (scan_match_ids a qf ms st w = Some (Inr st1, w1) \<longrightarrow>
         known_ids st1 = set (ordered_ids st1) \<and> distinct (ordered_ids st1) \<and>
         (\<exists>new. ordered_ids st1 = ordered_ids st @ new)) \<and>
      (scan_player a bs qf p starts st w = Some (Inr st2, w2) \<longrightarrow>
         known_ids st2 = set (ordered_ids st2) \<and> distinct (ordered_ids st2) \<and>
         (\<exists>new. ordered_ids st2 = ordered_ids st @ new)) \<and>
      (process_entry a bs hw qf entry st w = Some (Inr (brk, st3), w3) \<longrightarrow>
         known_ids st3 = set (ordered_ids st3) \<and> distinct (ordered_ids st3) \<and>
         (\<exists>new. ordered_ids st3 = ordered_ids st @ new))) \<and>
   (files w (matchlist a) = Some (Json (JArr (map JStr old))) \<and> distinct old \<and>
    collect a key w = Some (Inr st4, w4) \<longrightarrow>
      known_ids st4 = set (ordered_ids st4) \<and> distinct (ordered_ids st4) \<and>
      (\<exists>new. ordered_ids st4 = old @ new)) \<and>
   (new_matches st \<noteq> [] \<and> report a st w = Some (res, w5) \<longrightarrow>
      files w5 (matchlist a) = Some (Json (JArr (map JStr (ordered_ids st)))))"
proof -
  have scenario: "map_option (\<lambda>r. (fst r, files (snd r) ''matchlist.json'')) (main default_args merge_world)
     = Some (Inr 0, Some (Json (JArr [JStr ''a'', JStr ''b'', JStr ''c''])))"
    by (simp add: merge_world_def main_defs run_defs eval_nat_numeral py_range.simps)
  have ok: "known_ids s = set (ordered_ids s) \<and> distinct (ordered_ids s) \<and>
         (\<exists>new. ordered_ids s = ordered_ids st @ new)"
    if "known_ids st = set (ordered_ids st)" "distinct (ordered_ids st)" "merged st s" for s
    using that by (simp add: merged_def state_ok_def)
  have loops: "(scan_match_ids a qf ms st w = Some (Inr st1, w1) \<longrightarrow>
         known_ids st1 = set (ordered_ids st1) \<and> distinct (ordered_ids st1) \<and>
         (\<exists>new. ordered_ids st1 = ordered_ids st @ new)) \<and>
      (scan_player a bs qf p starts st w = Some (Inr st2, w2) \<longrightarrow>
         known_ids st2 = set (ordered_ids st2) \<and> distinct (ordered_ids st2) \<and>
         (\<exists>new. ordered_ids st2 = ordered_ids st @ new)) \<and>
      (process_entry a bs hw qf entry st w = Some (Inr (brk, st3), w3) \<longrightarrow>
         known_ids st3 = set (ordered_ids st3) \<and> distinct (ordered_ids st3) \<and>
         (\<exists>new. ordered_ids st3 = ordered_ids st @ new))"
    if inv: "known_ids st = set (ordered_ids st)" "distinct (ordered_ids st)"
  proof (intro conjI impI)
    assume "scan_match_ids a qf ms st w = Some (Inr st1, w1)"
    from returnsD [OF returns_scan_match_ids this] have "merged st st1" .
    from ok [OF inv this]
    show "known_ids st1 = set (ordered_ids st1)" "distinct (ordered_ids st1)"
      "\<exists>new. ordered_ids st1 = ordered_ids st @ new" by blast+
  next
    assume "scan_player a bs qf p starts st w = Some (Inr st2, w2)"
    from returnsD [OF returns_scan_player this] have "merged st st2" .
    from ok [OF inv this]
    show "known_ids st2 = set (ordered_ids st2)" "distinct (ordered_ids st2)"
      "\<exists>new. ordered_ids st2 = ordered_ids st @ new" by blast+
  next
    assume "process_entry a bs hw qf entry st w = Some (Inr (brk, st3), w3)"
    from returnsD [OF returns_process_entry this] have "merged st st3" by simp
    from ok [OF inv this]
    show "known_ids st3 = set (ordered_ids st3)" "distinct (ordered_ids st3)"
      "\<exists>new. ordered_ids st3 = ordered_ids st @ new" by blast+
  qed
  have coll: "known_ids st4 = set (ordered_ids st4) \<and> distinct (ordered_ids st4) \<and>
      (\<exists>new. ordered_ids st4 = old @ new)"
    if "files w (matchlist a) = Some (Json (JArr (map JStr old)))" "distinct old"
      "collect a key w = Some (Inr st4, w4)"
    using collect_merged [OF that(1,3)] that(2) by blast
  have rep: "files w5 (matchlist a) = Some (Json (JArr (map JStr (ordered_ids st))))"
    if "new_matches st \<noteq> []" "report a st w = Some (res, w5)"
    using that by (rule report_writes)
  show ?thesis using scenario loops coll rep by blast
qed

text \<open>Claim C6, witness: the state after loading \<^verbatim>\<open>["a", "b"]\<close>, in each loop.\<close>

theorem matchlist_merge_witness:
  "known_ids two_known = set (ordered_ids two_known) \<and> distinct (ordered_ids two_known) \<and>
   (\<exists>st1 w1. scan_match_ids default_args (Some 420) [JStr ''b'', JStr ''c''] two_known bundle_world
        = Some (Inr st1, w1) \<and>
      ordered_ids st1 = [''a'', ''b'', ''c''] \<and> known_ids st1 = set (ordered_ids st1) \<and>
      distinct (ordered_ids st1)) \<and>
   (\<exists>st2 w2. scan_player default_args 50 (Some 420) ''p1'' [0] two_known empty_batch_world
        = Some (Inr st2, w2) \<and> known_ids st2 = set (ordered_ids st2)) \<and>
   (\<exists>st3 w3. process_entry default_args 50 200 (Some 420) (JObj []) two_known bare_world
        = Some (Inr (False, st3), w3) \<and> known_ids st3 = set (ordered_ids st3)) \<and>
   (\<exists>st4 w4. collect default_args ''RGAPI-key'' merge_world = Some (Inr st4, w4) \<and>
      known_ids st4 = set (ordered_ids st4) \<and> distinct (ordered_ids st4) \<and>
      (\<exists>new. ordered_ids st4 = [''a'', ''b''] @ new)) \<and>
   (\<exists>w5. report default_args (two_known\<lparr>new_matches := [''b'']\<rparr>) bare_world = Some (Inr 0, w5) \<and>
      files w5 ''matchlist.json'' = Some (Json (JArr [JStr ''a'', JStr ''b''])))"
proof -
  have i1: "known_ids two_known = set (ordered_ids two_known)"
    and i2: "distinct (ordered_ids two_known)"
    by (simp_all add: two_known_def insert_commute)
  have "\<exists>st1 w1. scan_match_ids default_args (Some 420) [JStr ''b'', JStr ''c''] two_known bundle_world
        = Some (Inr st1, w1) \<and> ordered_ids st1 = [''a'', ''b'', ''c'']"
    by (simp add: two_known_def bundle_world_def main_defs run_defs eval_nat_numeral)
  then obtain st1 w1 where r1: "scan_match_ids default_args (Some 420) [JStr ''b'', JStr ''c'']
      two_known bundle_world = Some (Inr st1, w1)" and o1: "ordered_ids st1 = [''a'', ''b'', ''c'']"
    by blast
  have "\<exists>st2 w2. scan_player default_args 50 (Some 420) ''p1'' [0] two_known empty_batch_world
        = Some (Inr st2, w2)"
    by (simp add: two_known_def empty_batch_world_def main_defs run_defs eval_nat_numeral)
  then obtain st2 w2 where r2: "scan_player default_args 50 (Some 420) ''p1'' [0] two_known
      empty_batch_world = Some (Inr st2, w2)" by blast
  have "\<exists>st3 w3. process_entry default_args 50 200 (Some 420) (JObj []) two_known bare_world
        = Some (Inr (False, st3), w3)"
    by (simp add: two_known_def main_defs run_defs)
  then obtain st3 w3 where r3: "process_entry default_args 50 200 (Some 420) (JObj []) two_known
      bare_world = Some (Inr (False, st3), w3)" by blast
  have f4: "files merge_world (matchlist default_args)
      = Some (Json (JArr (map JStr [''a'', ''b''])))"
    by (simp add: merge_world_def default_args_def credential_world_def bare_world_def)
  have d4: "distinct [''a'', ''b'']" by simp
  have "\<exists>st4 w4. collect default_args ''RGAPI-key'' merge_world = Some (Inr st4, w4)"
    by (simp add: merge_world_def main_defs run_defs eval_nat_numeral py_range.simps)
  then obtain st4 w4 where r4: "collect default_args ''RGAPI-key'' merge_world = Some (Inr st4, w4)"
    by blast
  have n5: "new_matches (two_known\<lparr>new_matches := [''b'']\<rparr>) \<noteq> []" by simp
  have "\<exists>w5. report default_args (two_known\<lparr>new_matches := [''b'']\<rparr>) bare_world = Some (Inr 0, w5)"
    by (simp add: two_known_def main_defs run_defs)
  then obtain w5 where r5: "report default_args (two_known\<lparr>new_matches := [''b'']\<rparr>) bare_world
      = Some (Inr 0, w5)" by blast
  note loops = matchlist_merge [where st = two_known and a = default_args and qf = "Some 420"
      and bs = 50 and hw = 200 and p = "''p1''" and starts = "[0]" and entry = "JObj []"
      and brk = False and ms = "[JStr ''b'', JStr ''c'']",
      THEN conjunct2, THEN conjunct1, THEN mp, OF conjI [OF i1 i2]]
  have c1: "known_ids st1 = set (ordered_ids st1) \<and> distinct (ordered_ids st1) \<and>
      (\<exists>new. ordered_ids st1 = ordered_ids two_known @ new)"
    by (rule loops [THEN conjunct1, THEN mp, OF r1])
  have c2: "known_ids st2 = set (ordered_ids st2) \<and> distinct (ordered_ids st2) \<and>
      (\<exists>new. ordered_ids st2 = ordered_ids two_known @ new)"
    by (rule loops [THEN conjunct2, THEN conjunct1, THEN mp, OF r2])
  have c3: "known_ids st3 = set (ordered_ids st3) \<and> distinct (ordered_ids st3) \<and>
      (\<exists>new. ordered_ids st3 = ordered_ids two_known @ new)"
    by (rule loops [THEN conjunct2, THEN conjunct2, THEN mp, OF r3])
  have c4: "known_ids st4 = set (ordered_ids st4) \<and> distinct (ordered_ids st4) \<and>
      (\<exists>new. ordered_ids st4 = [''a'', ''b''] @ new)"
    by (rule matchlist_merge [where a = default_args and w = merge_world
          and old = "[''a'', ''b'']" and key = "''RGAPI-key''",
          THEN conjunct2, THEN conjunct2, THEN conjunct1, THEN mp,
          OF conjI [OF f4 conjI [OF d4 r4]]])
  have c5: "files w5 (matchlist default_args)
      = Some (Json (JArr (map JStr (ordered_ids (two_known\<lparr>new_matches := [''b'']\<rparr>)))))"
    by (rule matchlist_merge [where a = default_args
          and st = "two_known\<lparr>new_matches := [''b'']\<rparr>"
          and w = bare_world and res = "Inr 0",
          THEN conjunct2, THEN conjunct2, THEN conjunct2, THEN mp, OF conjI [OF n5 r5]])
  then have c5': "files w5 ''matchlist.json'' = Some (Json (JArr [JStr ''a'', JStr ''b'']))"
    by (simp add: default_args_def two_known_def)
  have p1: "\<exists>st1 w1. scan_match_ids default_args (Some 420) [JStr ''b'', JStr ''c''] two_known bundle_world
        = Some (Inr st1, w1) \<and>
      ordered_ids st1 = [''a'', ''b'', ''c''] \<and> known_ids st1 = set (ordered_ids st1) \<and>
      distinct (ordered_ids st1)"
    using r1 o1 c1 by (intro exI [of _ st1] exI [of _ w1]) simp
  have p2: "\<exists>st2 w2. scan_player default_args 50 (Some 420) ''p1'' [0] two_known empty_batch_world
        = Some (Inr st2, w2) \<and> known_ids st2 = set (ordered_ids st2)"
    using r2 c2 by (intro exI [of _ st2] exI [of _ w2]) simp
  have p3: "\<exists>st3 w3. process_entry default_args 50 200 (Some 420) (JObj []) two_known bare_world
        = Some (Inr (False, st3), w3) \<and> known_ids st3 = set (ordered_ids st3)"
    using r3 c3 by (intro exI [of _ st3] exI [of _ w3]) simp
  have p4: "\<exists>st4 w4. collect default_args ''RGAPI-key'' merge_world = Some (Inr st4, w4) \<and>
      known_ids st4 = set (ordered_ids st4) \<and> distinct (ordered_ids st4) \<and>
      (\<exists>new. ordered_ids st4 = [''a'', ''b''] @ new)"
    using r4 c4 by (intro exI [of _ st4] exI [of _ w4] conjI) (rule r4, simp_all)
  have p5: "\<exists>w5. report default_args (two_known\<lparr>new_matches := [''b'']\<rparr>) bare_world = Some (Inr 0, w5) \<and>
      files w5 ''matchlist.json'' = Some (Json (JArr [JStr ''a'', JStr ''b'']))"
    using r5 c5' by (intro exI [of _ w5]) simp
  show ?thesis
    by (intro conjI i1 i2 p1 p2 p3 p4 p5)
qed

subsection \<open>The scan of a player's history\<close>




end
